theory Spec2Isabelle
  imports Complex_Main "HOL-Library.Multiset"
begin

section \<open>JavaScript strings and the built-ins the code calls\<close>

text \<open>
  A JavaScript string is a sequence of UTF-16 code units; \<open>length\<close>, \<open>includes\<close>,
  \<open>split\<close>, \<open>substring\<close> and the regular expressions of the source (none has the
  \<open>u\<close> flag) all work on code units. A code unit is modelled by its number, a string by the
  list of its code units, so that a Chinese character of the Basic Multilingual Plane is
  one element, as it is for the program. String constants of the source are written out as
  their code units.
\<close>

type_synonym jschar = nat
type_synonym jsstring = "nat list"

text \<open>The class \<open>\s\<close> of a JavaScript regular expression (white space and line
  terminators); \<open>String.prototype.trim\<close> strips the same set.\<close>

definition is_space :: "jschar \<Rightarrow> bool" where
  "is_space c = (c = 0x09 \<or> c = 0x0A \<or> c = 0x0B \<or> c = 0x0C \<or> c = 0x0D \<or> c = 0x20
     \<or> c = 0xA0 \<or> c = 0x1680 \<or> (0x2000 \<le> c \<and> c \<le> 0x200A) \<or> c = 0x2028
     \<or> c = 0x2029 \<or> c = 0x202F \<or> c = 0x205F \<or> c = 0x3000 \<or> c = 0xFEFF)"

text \<open>The characters that \<open>.\<close> does not match (no \<open>s\<close> flag in the source).\<close>

definition is_line_terminator :: "jschar \<Rightarrow> bool" where
  "is_line_terminator c = (c = 0x0A \<or> c = 0x0D \<or> c = 0x2028 \<or> c = 0x2029)"

text \<open>The classes \<open>[a-zA-Z0-9]\<close> and \<open>[\u4e00-\u9fa5]\<close>.\<close>

definition is_alnum :: "jschar \<Rightarrow> bool" where
  "is_alnum c = ((0x61 \<le> c \<and> c \<le> 0x7A) \<or> (0x41 \<le> c \<and> c \<le> 0x5A) \<or> (0x30 \<le> c \<and> c \<le> 0x39))"

definition is_cjk :: "jschar \<Rightarrow> bool" where
  "is_cjk c = (0x4E00 \<le> c \<and> c \<le> 0x9FA5)"

text \<open>\<open>s.includes(t)\<close>: \<open>t\<close> occurs in \<open>s\<close> as a contiguous substring.\<close>

fun str_includes :: "jsstring \<Rightarrow> jsstring \<Rightarrow> bool" where
  "str_includes [] t = (t = [])"
| "str_includes (c # cs) t = (take (length t) (c # cs) = t \<or> str_includes cs t)"

text \<open>\<open>s.split(/\s+/)\<close>: the pieces between maximal runs of white space. A leading or
  trailing run leaves an empty piece at that end, and the empty string splits into one
  empty piece.\<close>

function split_ws :: "jsstring \<Rightarrow> jsstring list" where
  "split_ws [] = [[]]"
| "split_ws (c # cs) =
     (if is_space c then [] # split_ws (dropWhile is_space cs)
      else (case split_ws cs of [] \<Rightarrow> [[c]] | w # ws \<Rightarrow> (c # w) # ws))"
  by pat_completeness auto
termination
  by (relation "measure length") (auto simp: less_Suc_eq_le length_dropWhile_le)

text \<open>\<open>parts.join(' ')\<close>.\<close>

fun join_sp :: "jsstring list \<Rightarrow> jsstring" where
  "join_sp [] = []"
| "join_sp [w] = w"
| "join_sp (w # v # ws) = w @ [0x20] @ join_sp (v # ws)"

definition trim :: "jsstring \<Rightarrow> jsstring" where
  "trim s = rev (dropWhile is_space (rev (dropWhile is_space s)))"

text \<open>\<open>new Set(xs)\<close> read back in insertion order: the first occurrence of every element.\<close>

definition set_add :: "'a list \<Rightarrow> 'a \<Rightarrow> 'a list" where
  "set_add acc x = (if x \<in> set acc then acc else acc @ [x])"

definition js_Set :: "'a list \<Rightarrow> 'a list" where
  "js_Set xs = foldl set_add [] xs"

section \<open>Structural normalisation (process-csv and update-intent-text)\<close>

text \<open>The table \<open>ACTION_NORMALIZATION\<close>, in declaration order, which is the order
  \<open>Object.entries\<close> yields for keys that are not array indices. The two files declare
  the same 52 entries in the same order.\<close>

definition ACTION_NORMALIZATION :: "(jsstring \<times> jsstring) list" where
  "ACTION_NORMALIZATION =
   [([0x6253, 0x5F00], [0x6253, 0x5F00]), ([0x8FDB, 0x5165], [0x6253, 0x5F00]),
    ([0x542F, 0x52A8], [0x6253, 0x5F00]), ([0x5F00, 0x542F], [0x6253, 0x5F00]),
    ([0x8BBF, 0x95EE], [0x6253, 0x5F00]),
    ([0x641C, 0x7D22], [0x641C, 0x7D22]), ([0x67E5, 0x627E], [0x641C, 0x7D22]),
    ([0x641C, 0x4E00, 0x4E0B], [0x641C, 0x7D22]), ([0x627E], [0x641C, 0x7D22]),
    ([0x68C0, 0x7D22], [0x641C, 0x7D22]),
    ([0x64AD, 0x653E], [0x64AD, 0x653E]), ([0x542C], [0x64AD, 0x653E]),
    ([0x542C, 0x4E00, 0x4E0B], [0x64AD, 0x653E]), ([0x653E], [0x64AD, 0x653E]),
    ([0x89C2, 0x770B], [0x64AD, 0x653E]), ([0x770B], [0x64AD, 0x653E]),
    ([0x70B9, 0x8D5E], [0x70B9, 0x8D5E]), ([0x8D5E], [0x70B9, 0x8D5E]),
    ([0x559C, 0x6B22], [0x70B9, 0x8D5E]),
    ([0x8BC4, 0x8BBA], [0x8BC4, 0x8BBA]), ([0x7559, 0x8A00], [0x8BC4, 0x8BBA]),
    ([0x53D1, 0x8868, 0x8BC4, 0x8BBA], [0x8BC4, 0x8BBA]),
    ([0x5173, 0x6CE8], [0x5173, 0x6CE8]), ([0x8BA2, 0x9605], [0x5173, 0x6CE8]),
    ([0x52A0, 0x5173, 0x6CE8], [0x5173, 0x6CE8]),
    ([0x5206, 0x4EAB], [0x5206, 0x4EAB]), ([0x8F6C, 0x53D1], [0x5206, 0x4EAB]),
    ([0x6536, 0x85CF], [0x6536, 0x85CF]), ([0x4FDD, 0x5B58], [0x6536, 0x85CF]),
    ([0x5220, 0x9664], [0x5220, 0x9664]), ([0x79FB, 0x9664], [0x5220, 0x9664]),
    ([0x6DFB, 0x52A0], [0x6DFB, 0x52A0]), ([0x65B0, 0x589E], [0x6DFB, 0x52A0]),
    ([0x521B, 0x5EFA], [0x6DFB, 0x52A0]),
    ([0x7F16, 0x8F91], [0x7F16, 0x8F91]), ([0x4FEE, 0x6539], [0x7F16, 0x8F91]),
    ([0x66F4, 0x6539], [0x7F16, 0x8F91]),
    ([0x67E5, 0x770B], [0x67E5, 0x770B]), ([0x6D4F, 0x89C8], [0x67E5, 0x770B]),
    ([0x67E5, 0x8BE2], [0x67E5, 0x770B]),
    ([0x4E0B, 0x8F7D], [0x4E0B, 0x8F7D]),
    ([0x4FDD, 0x5B58, 0x5230, 0x672C, 0x5730], [0x4E0B, 0x8F7D]),
    ([0x4E0A, 0x4F20], [0x4E0A, 0x4F20]), ([0x53D1, 0x5E03], [0x4E0A, 0x4F20]),
    ([0x767B, 0x5F55], [0x767B, 0x5F55]), ([0x767B, 0x9646], [0x767B, 0x5F55]),
    ([0x767B, 0x5165], [0x767B, 0x5F55]),
    ([0x9000, 0x51FA], [0x9000, 0x51FA]), ([0x767B, 0x51FA], [0x9000, 0x51FA]),
    ([0x9000, 0x51FA, 0x767B, 0x5F55], [0x9000, 0x51FA]),
    ([0x53D6, 0x6D88], [0x53D6, 0x6D88]), ([0x64A4, 0x9500], [0x53D6, 0x6D88])]"

text \<open>The placeholder \<open><QUERY>\<close>.\<close>

definition QUERY_PLACEHOLDER :: jsstring where
  "QUERY_PLACEHOLDER = [0x3C, 0x51, 0x55, 0x45, 0x52, 0x59, 0x3E]"

subsection \<open>Slot redaction: \<open>SLOT_PATTERNS\<close>\<close>

text \<open>
  \<open>text.replace(pattern, '<QUERY>')\<close> with a global pattern scans the string from the
  left; where the pattern matches at the current position the match is replaced and the
  scan goes on behind it, otherwise the character is copied and the scan moves one
  position on. The replacement is never scanned again. \<open>replace_all\<close> is that scan: the
  matcher \<open>m\<close> is given the characters before the position (nearest first, for the
  lookbehind) and the rest of the string, and returns the length of the match there.
  The counter \<open>skip\<close> is the number of characters of the current match still to pass.
  Both patterns of the source match at least two characters, so a match of length 0
  does not arise; the scan copies the character in that case.
\<close>

fun replace_all ::
  "(jsstring \<Rightarrow> jsstring \<Rightarrow> nat option) \<Rightarrow> jsstring \<Rightarrow> nat \<Rightarrow> jsstring \<Rightarrow> jsstring \<Rightarrow> jsstring"
where
  "replace_all m rep skip prev [] = []"
| "replace_all m rep (Suc k) prev (c # cs) = replace_all m rep k (c # prev) cs"
| "replace_all m rep 0 prev (c # cs) =
     (case m prev (c # cs) of
        Some (Suc n) \<Rightarrow> rep @ replace_all m rep n (c # prev) cs
      | _ \<Rightarrow> c # replace_all m rep 0 (c # prev) cs)"

text \<open>The first pattern: an opening quote or bracket, \<open>(.*?)\<close>, a closing one. The lazy
  \<open>.*?\<close> stops at the first closing character; \<open>.\<close> does not cross a line terminator.
  \<open>lazy_until_close\<close> returns the number of characters up to and including the closing
  one.\<close>

definition is_open_quote :: "jschar \<Rightarrow> bool" where
  "is_open_quote c = (c = 0x300A \<or> c = 0x300C \<or> c = 0x300E \<or> c = 0x22 \<or> c = 0x27)"

definition is_close_quote :: "jschar \<Rightarrow> bool" where
  "is_close_quote c = (c = 0x300B \<or> c = 0x300D \<or> c = 0x300F \<or> c = 0x22 \<or> c = 0x27)"

fun lazy_until_close :: "jsstring \<Rightarrow> nat option" where
  "lazy_until_close [] = None"
| "lazy_until_close (c # cs) =
     (if is_close_quote c then Some 1
      else if is_line_terminator c then None
      else map_option Suc (lazy_until_close cs))"

fun match_quoted :: "jsstring \<Rightarrow> jsstring \<Rightarrow> nat option" where
  "match_quoted prev [] = None"
| "match_quoted prev (c # cs) =
     (if is_open_quote c then map_option Suc (lazy_until_close cs) else None)"

text \<open>The second pattern:
  \<open>(?<!V1|V2|V3|V4)([a-zA-Z0-9]{2,}|[\u4e00-\u9fa5]{3,10})(?!P1|P2|P3|P4|P5)\<close>. The
  lookbehind fails when the two characters before the position are one of the four verbs;
  the lookahead fails when the character behind the match is one of the five particles.
  The quantifiers are greedy and give characters back one at a time (\<open>backtrack\<close>) until
  the lookahead holds or the lower bound is passed; the second alternative is tried when
  the first has no match.\<close>

definition LOOKBEHIND_VERBS :: "jsstring list" where
  "LOOKBEHIND_VERBS = [[0x6253, 0x5F00], [0x641C, 0x7D22], [0x64AD, 0x653E], [0x67E5, 0x770B]]"

definition LOOKAHEAD_PARTICLES :: "jschar list" where
  "LOOKAHEAD_PARTICLES = [0x7684, 0x4E86, 0x662F, 0x5728, 0x6709]"

definition preceded_by_verb :: "jsstring \<Rightarrow> bool" where
  "preceded_by_verb prev = list_ex (\<lambda>w. take (length w) prev = rev w) LOOKBEHIND_VERBS"

fun followed_by_particle :: "jsstring \<Rightarrow> bool" where
  "followed_by_particle [] = False"
| "followed_by_particle (c # cs) = (c \<in> set LOOKAHEAD_PARTICLES)"

primrec backtrack :: "nat \<Rightarrow> nat \<Rightarrow> jsstring \<Rightarrow> nat option" where
  "backtrack lo 0 s = (if lo = 0 \<and> \<not> followed_by_particle s then Some 0 else None)"
| "backtrack lo (Suc n) s =
     (if Suc n < lo then None
      else if \<not> followed_by_particle (drop (Suc n) s) then Some (Suc n)
      else backtrack lo n s)"

definition match_slot :: "jsstring \<Rightarrow> jsstring \<Rightarrow> nat option" where
  "match_slot prev s =
     (if preceded_by_verb prev then None
      else (case backtrack 2 (length (takeWhile is_alnum s)) s of
              Some n \<Rightarrow> Some n
            | None \<Rightarrow> backtrack 3 (min (length (takeWhile is_cjk s)) 10) s))"

text \<open>The loop over \<open>SLOT_PATTERNS\<close>: the second pattern runs on the output of the first.\<close>

definition redact_slots :: "jsstring \<Rightarrow> jsstring" where
  "redact_slots text =
     replace_all match_slot QUERY_PLACEHOLDER 0 []
       (replace_all match_quoted QUERY_PLACEHOLDER 0 [] text)"

subsection \<open>\<open>normalizeIntent\<close>\<close>

text \<open>The inner loop over \<open>Object.entries(ACTION_NORMALIZATION)\<close>: at the first key the
  word contains, the mapped action is pushed unless \<open>normalizedWords\<close> has it already,
  \<open>found\<close> is set and the loop breaks. The result is \<open>found\<close> and the new
  \<open>normalizedWords\<close>.\<close>

fun scan_table ::
  "(jsstring \<times> jsstring) list \<Rightarrow> jsstring \<Rightarrow> jsstring list \<Rightarrow> bool \<times> jsstring list"
where
  "scan_table [] word ws = (False, ws)"
| "scan_table ((key, action) # es) word ws =
     (if str_includes word key then (True, if action \<in> set ws then ws else ws @ [action])
      else scan_table es word ws)"

text \<open>The test \<open>word.match(/^[...]/)\<close> on the eight filler characters.\<close>

definition FILLERS :: "jschar list" where
  "FILLERS = [0x7684, 0x4E86, 0x662F, 0x5728, 0x6709, 0x4E2A, 0x8FD9, 0x90A3]"

fun starts_with_filler :: "jsstring \<Rightarrow> bool" where
  "starts_with_filler [] = False"
| "starts_with_filler (c # cs) = (c \<in> set FILLERS)"

text \<open>The body of the loop over the words.\<close>

definition normalize_word :: "jsstring list \<Rightarrow> jsstring \<Rightarrow> jsstring list" where
  "normalize_word ws word =
     (if word = QUERY_PLACEHOLDER then ws
      else (case scan_table ACTION_NORMALIZATION word ws of
              (found, ws') \<Rightarrow>
                if \<not> found \<and> 2 \<le> length word \<and> \<not> starts_with_filler word
                then ws' @ [word] else ws'))"

text \<open>\<open>normalizeIntent\<close> of process-csv.\<close>

definition normalizeIntent_csv :: "jsstring \<Rightarrow> jsstring" where
  "normalizeIntent_csv text =
     trim (join_sp (js_Set (foldl normalize_word [] (split_ws (redact_slots text)))))"

text \<open>\<open>normalizeIntent\<close> of update-intent-text: the same function behind the guard
  \<open>if (!text) return ''\<close>.\<close>

definition normalizeIntent_update :: "jsstring \<Rightarrow> jsstring" where
  "normalizeIntent_update text = (if text = [] then [] else normalizeIntent_csv text)"

text \<open>\<open>extractIntent\<close> of process-csv. A label is \<open>string | null\<close>; \<open>if (level1)\<close> holds
  for a string that is not empty.\<close>

definition push_if_truthy :: "jsstring list \<Rightarrow> jsstring option \<Rightarrow> jsstring list" where
  "push_if_truthy parts l =
     (case l of None \<Rightarrow> parts | Some s \<Rightarrow> if s = [] then parts else parts @ [s])"

definition push_query :: "jsstring list \<Rightarrow> jsstring \<Rightarrow> jsstring list" where
  "push_query parts query =
     (let normalized = normalizeIntent_csv query
      in if normalized = [] then parts else parts @ [normalized])"

definition extractIntent ::
  "jsstring option \<Rightarrow> jsstring option \<Rightarrow> jsstring option \<Rightarrow> jsstring list \<Rightarrow> jsstring"
where
  "extractIntent level1 functionPoint subFunction queries =
     (let parts = push_if_truthy (push_if_truthy (push_if_truthy [] level1) functionPoint) subFunction;
          parts = foldl push_query parts queries;
          combined = join_sp parts
      in normalizeIntent_csv combined)"

section \<open>Query-time normalisation and scoring (search-similar)\<close>

text \<open>The tables of search-similar, in declaration order.\<close>

definition APP_NAMES :: "jsstring list" where
  "APP_NAMES =
   [[0x5168, 0x6C11, 0x004B, 0x6B4C], [0x6296, 0x97F3], [0x5FAE, 0x4FE1],
    [0x652F, 0x4ED8, 0x5B9D], [0x6DD8, 0x5B9D], [0x4EAC, 0x4E1C], [0x7F8E, 0x56E2],
    [0x997F, 0x4E86, 0x4E48], [0x54D4, 0x54E9, 0x54D4, 0x54E9], [0x0042, 0x7AD9],
    [0x5FEB, 0x624B], [0x5C0F, 0x7EA2, 0x4E66], [0x77E5, 0x4E4E], [0x767E, 0x5EA6],
    [0x7F51, 0x6613, 0x4E91, 0x97F3, 0x4E50], [0x0051, 0x0051], [0x9489, 0x9489],
    [0x4F01, 0x4E1A, 0x5FAE, 0x4FE1], [0x62FC, 0x591A, 0x591A], [0x95F2, 0x9C7C],
    [0x9AD8, 0x5FB7, 0x5730, 0x56FE], [0x767E, 0x5EA6, 0x5730, 0x56FE], [0x643A, 0x7A0B],
    [0x98DE, 0x732A], [0x53BB, 0x54EA, 0x513F], [0x0031, 0x0032, 0x0033, 0x0030, 0x0036],
    [0x6EF4, 0x6EF4], [0x82B1, 0x5C0F, 0x732A], [0x66F9, 0x64CD, 0x51FA, 0x884C]]"

definition ACTION_MAP :: "(jsstring \<times> jsstring) list" where
  "ACTION_MAP =
   [([0x6253, 0x5F00], [0x6253, 0x5F00]), ([0x8FDB, 0x5165], [0x6253, 0x5F00]),
    ([0x542F, 0x52A8], [0x6253, 0x5F00]), ([0x5F00, 0x542F], [0x6253, 0x5F00]),
    ([0x641C, 0x7D22], [0x641C, 0x7D22]), ([0x67E5, 0x627E], [0x641C, 0x7D22]),
    ([0x641C, 0x4E00, 0x4E0B], [0x641C, 0x7D22]), ([0x627E], [0x641C, 0x7D22]),
    ([0x64AD, 0x653E], [0x64AD, 0x653E]), ([0x542C], [0x64AD, 0x653E]),
    ([0x89C2, 0x770B], [0x64AD, 0x653E]), ([0x770B], [0x64AD, 0x653E]),
    ([0x70B9, 0x8D5E], [0x70B9, 0x8D5E]), ([0x8D5E], [0x70B9, 0x8D5E]),
    ([0x559C, 0x6B22], [0x70B9, 0x8D5E]), ([0x8BC4, 0x8BBA], [0x8BC4, 0x8BBA]),
    ([0x7559, 0x8A00], [0x8BC4, 0x8BBA]), ([0x5173, 0x6CE8], [0x5173, 0x6CE8]),
    ([0x8BA2, 0x9605], [0x5173, 0x6CE8]), ([0x5206, 0x4EAB], [0x5206, 0x4EAB]),
    ([0x8F6C, 0x53D1], [0x5206, 0x4EAB]), ([0x6536, 0x85CF], [0x6536, 0x85CF]),
    ([0x4FDD, 0x5B58], [0x6536, 0x85CF]), ([0x5220, 0x9664], [0x5220, 0x9664]),
    ([0x79FB, 0x9664], [0x5220, 0x9664]), ([0x6DFB, 0x52A0], [0x6DFB, 0x52A0]),
    ([0x65B0, 0x589E], [0x6DFB, 0x52A0]), ([0x521B, 0x5EFA], [0x6DFB, 0x52A0]),
    ([0x7F16, 0x8F91], [0x7F16, 0x8F91]), ([0x4FEE, 0x6539], [0x7F16, 0x8F91]),
    ([0x67E5, 0x770B], [0x67E5, 0x770B]), ([0x6D4F, 0x89C8], [0x67E5, 0x770B]),
    ([0x4E0B, 0x8F7D], [0x4E0B, 0x8F7D]), ([0x4E0A, 0x4F20], [0x4E0A, 0x4F20]),
    ([0x53D1, 0x5E03], [0x4E0A, 0x4F20]), ([0x767B, 0x5F55], [0x767B, 0x5F55]),
    ([0x9000, 0x51FA], [0x9000, 0x51FA])]"

definition CONTENT_KEYWORDS :: "jsstring list" where
  "CONTENT_KEYWORDS =
   [[0x5C71, 0x6942, 0x6811, 0x4E4B, 0x604B], [0x5468, 0x6770, 0x4F26], [0x6674, 0x5929],
    [0x4E03, 0x91CC, 0x9999], [0x5FEB, 0x4E50], [0x7F8E, 0x98DF], [0x65C5, 0x6E38],
    [0x641E, 0x7B11], [0x97F3, 0x4E50], [0x89C6, 0x9891], [0x56FE, 0x7247],
    [0x6587, 0x7AE0], [0x65B0, 0x95FB]]"

text \<open>\<open>s.toLowerCase()\<close>. The letters \<open>A\<close> to \<open>Z\<close> are mapped to \<open>a\<close> to \<open>z\<close>; the case
  pairs of Unicode outside ASCII are left as they are (the tables and the corpus are
  Chinese text with ASCII names).\<close>

definition toLowerCase :: "jsstring \<Rightarrow> jsstring" where
  "toLowerCase s = map (\<lambda>c. if 0x41 \<le> c \<and> c \<le> 0x5A then c + 0x20 else c) s"

subsection \<open>\<open>normalizeIntent\<close> of search-similar\<close>

definition extractAppName :: "jsstring \<Rightarrow> jsstring option" where
  "extractAppName text = find (\<lambda>app. str_includes text app) APP_NAMES"

definition push_action :: "jsstring \<Rightarrow> jsstring list \<Rightarrow> jsstring \<times> jsstring \<Rightarrow> jsstring list" where
  "push_action text actions e =
     (case e of (key, action) \<Rightarrow>
        if str_includes text key \<and> action \<notin> set actions then actions @ [action] else actions)"

definition extractActions :: "jsstring \<Rightarrow> jsstring list" where
  "extractActions text = foldl (push_action text) [] ACTION_MAP"

text \<open>\<open>cleaned.replace(keyword, '')\<close> with a string pattern removes the first occurrence
  only.\<close>

fun remove_first :: "jsstring \<Rightarrow> jsstring \<Rightarrow> jsstring" where
  "remove_first [] pat = []"
| "remove_first (c # cs) pat =
     (if take (length pat) (c # cs) = pat then drop (length pat) (c # cs)
      else c # remove_first cs pat)"

definition keep_word :: "jsstring \<Rightarrow> bool" where
  "keep_word word =
     (if word \<in> set (map snd ACTION_MAP) then True
      else if word \<in> set APP_NAMES then True
      else if 3 \<le> length word \<and> length word \<le> 8 \<and> word \<noteq> [] \<and> list_all is_cjk word
           then word \<notin> set CONTENT_KEYWORDS
      else True)"

definition removeContentParams :: "jsstring \<Rightarrow> jsstring" where
  "removeContentParams text =
     (let cleaned = foldl remove_first text CONTENT_KEYWORDS;
          cleaned = replace_all match_quoted [] 0 [] cleaned;
          words = split_ws cleaned;
          filtered = filter keep_word words
      in join_sp filtered)"

definition normalizeIntent_search :: "jsstring \<Rightarrow> jsstring" where
  "normalizeIntent_search text =
     (if text = [] then []
      else
        let parts = (case extractAppName text of Some appName \<Rightarrow> [appName] | None \<Rightarrow> []);
            parts = parts @ extractActions text
        in if parts = [] then trim (take 20 (removeContentParams text))
           else trim (join_sp parts))"

subsection \<open>\<open>computeIntentSimilarity\<close>\<close>

text \<open>A JavaScript number is modelled by a real number: the arithmetic of the model is
  exact, and the rounding of IEEE doubles is outside it.\<close>

definition computeIntentSimilarity :: "jsstring \<Rightarrow> jsstring \<Rightarrow> real" where
  "computeIntentSimilarity query record =
     (if query = [] \<or> record = [] then 0
      else
        let queryWords = filter (\<lambda>w. 0 < length w) (split_ws (toLowerCase query));
            recordWords = filter (\<lambda>w. 0 < length w) (split_ws (toLowerCase record))
        in if queryWords = [] \<or> recordWords = [] then 0
           else
             let querySet = js_Set queryWords;
                 recordSet = js_Set recordWords;
                 queryApp = find (\<lambda>app. str_includes query app) APP_NAMES;
                 recordApp = find (\<lambda>app. str_includes record app) APP_NAMES;
                 appMatch = \<not> (queryApp \<noteq> None \<and> recordApp \<noteq> None \<and> queryApp \<noteq> recordApp);
                 intersection = js_Set (filter (\<lambda>x. x \<in> set recordSet) querySet);
                 union = js_Set (querySet @ recordSet);
                 similarity = real (length intersection) / real (length union)
             in if \<not> appMatch then similarity * 0.3 else similarity)"

subsection \<open>TF-IDF\<close>

text \<open>A \<open>Map<string, number>\<close> is an association list in insertion order with one entry
  per key: \<open>map_set\<close> overwrites the entry of a key in place or appends a new one, and
  \<open>get_or0 m k\<close> is \<open>m.get(k) || 0\<close>.\<close>

fun map_set :: "('k \<times> 'v) list \<Rightarrow> 'k \<Rightarrow> 'v \<Rightarrow> ('k \<times> 'v) list" where
  "map_set [] k v = [(k, v)]"
| "map_set ((k', v') # m) k v = (if k' = k then (k, v) # m else (k', v') # map_set m k v)"

definition get_or0 :: "('k \<times> real) list \<Rightarrow> 'k \<Rightarrow> real" where
  "get_or0 m k = (case map_of m k of None \<Rightarrow> 0 | Some v \<Rightarrow> v)"

definition is_word_char :: "jschar \<Rightarrow> bool" where
  "is_word_char c = (is_alnum c \<or> c = 0x5F)"

definition preprocessText :: "jsstring \<Rightarrow> jsstring list" where
  "preprocessText text =
     (if text = [] then []
      else filter (\<lambda>word. 0 < length word)
             (split_ws (map (\<lambda>c. if is_word_char c \<or> is_space c \<or> is_cjk c then c else 0x20)
                          (toLowerCase text))))"

definition count_up :: "(jsstring \<times> real) list \<Rightarrow> jsstring \<Rightarrow> (jsstring \<times> real) list" where
  "count_up m word = map_set m word (get_or0 m word + 1)"

definition computeTermFrequency :: "jsstring list \<Rightarrow> (jsstring \<times> real) list" where
  "computeTermFrequency words =
     (if words = [] then []
      else
        let tf = foldl count_up [] words;
            totalWords = real (length words)
        in map (\<lambda>(word, count). (word, count / totalWords)) tf)"

definition computeIDF :: "jsstring list list \<Rightarrow> (jsstring \<times> real) list" where
  "computeIDF documents =
     (let docCount = real (length documents)
      in if documents = [] then []
         else
           let wordDocCount = foldl (\<lambda>m doc. foldl count_up m (js_Set doc)) [] documents
           in map (\<lambda>(word, count). (word, ln (docCount / count))) wordDocCount)"

definition computeTFIDF ::
  "(jsstring \<times> real) list \<Rightarrow> (jsstring \<times> real) list \<Rightarrow> (jsstring \<times> real) list"
where
  "computeTFIDF tf idf = map (\<lambda>(word, tfValue). (word, tfValue * get_or0 idf word)) tf"

text \<open>The loop of \<open>cosineSimilarity\<close> over \<open>allWords\<close>: the state is
  \<open>(dotProduct, norm1, norm2)\<close>.\<close>

definition cosine_step ::
  "(jsstring \<times> real) list \<Rightarrow> (jsstring \<times> real) list \<Rightarrow> real \<times> real \<times> real \<Rightarrow> jsstring
     \<Rightarrow> real \<times> real \<times> real"
where
  "cosine_step vec1 vec2 st word =
     (case st of (dotProduct, norm1, norm2) \<Rightarrow>
        let v1 = get_or0 vec1 word; v2 = get_or0 vec2 word
        in (dotProduct + v1 * v2, norm1 + v1 * v1, norm2 + v2 * v2))"

definition cosine_sums ::
  "(jsstring \<times> real) list \<Rightarrow> (jsstring \<times> real) list \<Rightarrow> real \<times> real \<times> real"
where
  "cosine_sums vec1 vec2 =
     foldl (cosine_step vec1 vec2) (0, 0, 0) (js_Set (map fst vec1 @ map fst vec2))"

definition cosineSimilarity :: "(jsstring \<times> real) list \<Rightarrow> (jsstring \<times> real) list \<Rightarrow> real" where
  "cosineSimilarity vec1 vec2 =
     (case cosine_sums vec1 vec2 of (dotProduct, norm1, norm2) \<Rightarrow>
        if norm1 = 0 \<or> norm2 = 0 then 0
        else dotProduct / (sqrt norm1 * sqrt norm2))"

subsection \<open>The request handler\<close>

record FunctionRecord =
  record_id :: int
  source_dir :: jsstring
  source_file :: jsstring
  row_number :: int
  level_1 :: "jsstring option"
  function_point :: "jsstring option"
  sub_function :: "jsstring option"
  search_text :: jsstring
  intent_text :: "jsstring option"

record SearchResult = FunctionRecord +
  intent_similarity :: real
  text_similarity :: real
  is_duplicate :: bool

text \<open>The value of \<open>query\<close> in the request body; a key that is missing reads as
  \<open>undefined\<close>.\<close>

datatype jsvalue =
  JUndefined | JNull | JBool bool | JNumber real | JString jsstring | JObject

fun truthy :: "jsvalue \<Rightarrow> bool" where
  "truthy JUndefined = False"
| "truthy JNull = False"
| "truthy (JBool b) = b"
| "truthy (JNumber x) = (x \<noteq> 0)"
| "truthy (JString s) = (s \<noteq> [])"
| "truthy JObject = True"

text \<open>What the query of the table \<open>function_records\<close> returned: an error, or the rows
  (which may be \<open>null\<close>).\<close>

datatype fetched = Fetch_error jsstring | Fetch_data "FunctionRecord list option"

datatype error = Query_is_required | Failed_to_fetch_records jsstring

text \<open>The body of a response with status 200; a key that the handler does not write is
  \<open>None\<close>.\<close>

record response =
  results :: "SearchResult list"
  message :: "jsstring option"
  totalRecords :: "nat option"
  queryIntent :: "jsstring option"
  hasDuplicate :: "bool option"

definition EMPTY_LIBRARY_MESSAGE :: jsstring where
  "EMPTY_LIBRARY_MESSAGE =
   [0x68C0, 0x7D22, 0x5E93, 0x4E3A, 0x7A7A, 0xFF0C, 0x8BF7, 0x5148, 0x4E0A, 0x4F20, 0x0043,
    0x0053, 0x0056, 0x6587, 0x4EF6]"

text \<open>The body of the loop over the records.\<close>

definition score_record ::
  "jsstring \<Rightarrow> (jsstring \<times> real) list \<Rightarrow> (jsstring \<times> real) list \<Rightarrow> FunctionRecord \<Rightarrow> jsstring list
     \<Rightarrow> SearchResult"
where
  "score_record queryIntent' textIdf queryTextTFIDF r textWords =
     (let recordIntent =
            (case intent_text r of
               None \<Rightarrow> normalizeIntent_search (search_text r)
             | Some t \<Rightarrow> if t = [] then normalizeIntent_search (search_text r) else t);
          intentSimilarity = computeIntentSimilarity queryIntent' recordIntent;
          textTF = computeTermFrequency textWords;
          textTFIDF = computeTFIDF textTF textIdf;
          textSimilarity = cosineSimilarity queryTextTFIDF textTFIDF;
          isDuplicate = (intentSimilarity \<ge> 0.7 \<and> textSimilarity \<ge> 0.3)
      in \<lparr> record_id = record_id r, source_dir = source_dir r, source_file = source_file r,
           row_number = row_number r, level_1 = level_1 r, function_point = function_point r,
           sub_function = sub_function r, search_text = search_text r,
           intent_text = Some recordIntent,
           intent_similarity = intentSimilarity, text_similarity = textSimilarity,
           is_duplicate = isDuplicate \<rparr>)"

text \<open>The handler from the normalisation of the query to the end of the loop: the list
  \<open>results\<close> before it is sorted.\<close>

definition scoreRecords :: "jsstring \<Rightarrow> FunctionRecord list \<Rightarrow> SearchResult list" where
  "scoreRecords query records =
     (let queryIntent' = normalizeIntent_search query;
          queryWords = preprocessText query;
          allTextDocuments = map (\<lambda>r. preprocessText (search_text r)) records @ [queryWords];
          textIdf = computeIDF allTextDocuments;
          queryTextTF = computeTermFrequency queryWords;
          queryTextTFIDF = computeTFIDF queryTextTF textIdf
      in map (\<lambda>(r, textWords). score_record queryIntent' textIdf queryTextTFIDF r textWords)
           (zip records allTextDocuments))"

text \<open>The comparator given to \<open>results.sort\<close>.\<close>

definition compare_results :: "SearchResult \<Rightarrow> SearchResult \<Rightarrow> real" where
  "compare_results a b =
     (if is_duplicate a \<noteq> is_duplicate b then (if is_duplicate a then - 1 else 1)
      else if \<bar>intent_similarity a - intent_similarity b\<bar> > 0.01
           then intent_similarity b - intent_similarity a
      else text_similarity b - text_similarity a)"

text \<open>\<open>Array.prototype.sort\<close> with a comparator. The standard requires the sort to be
  stable and, for a comparator that is a consistent ordering of the elements, fixes the
  result; for any other comparator it leaves the order to the implementation. The model
  is the stable insertion sort: an element goes in front of the first element behind it
  that the comparator does not put before it.\<close>

fun insert_by :: "('a \<Rightarrow> 'a \<Rightarrow> real) \<Rightarrow> 'a \<Rightarrow> 'a list \<Rightarrow> 'a list" where
  "insert_by cmp x [] = [x]"
| "insert_by cmp x (y # ys) = (if cmp x y \<le> 0 then x # y # ys else y # insert_by cmp x ys)"

fun js_sort :: "('a \<Rightarrow> 'a \<Rightarrow> real) \<Rightarrow> 'a list \<Rightarrow> 'a list" where
  "js_sort cmp [] = []"
| "js_sort cmp (x # xs) = insert_by cmp x (js_sort cmp xs)"

definition empty_library :: response where
  "empty_library =
     \<lparr> results = [], message = Some EMPTY_LIBRARY_MESSAGE, totalRecords = None,
       queryIntent = None, hasDuplicate = None \<rparr>"

definition search_similar :: "jsvalue \<Rightarrow> fetched \<Rightarrow> error + response" where
  "search_similar query fetch =
     (case query of
        JString q \<Rightarrow>
          if \<not> truthy query then Inl Query_is_required
          else
            (case fetch of
               Fetch_error msg \<Rightarrow> Inl (Failed_to_fetch_records msg)
             | Fetch_data None \<Rightarrow> Inr empty_library
             | Fetch_data (Some records) \<Rightarrow>
                 if length records = 0 then Inr empty_library
                 else
                   let top5 = take 5 (js_sort compare_results (scoreRecords q records))
                   in Inr \<lparr> results = top5, message = None,
                            totalRecords = Some (length records),
                            queryIntent = Some (normalizeIntent_search q),
                            hasDuplicate = Some (list_ex is_duplicate top5) \<rparr>)
      | _ \<Rightarrow> Inl Query_is_required)"

section \<open>The claims' own notions\<close>

text \<open>The labels that are supplied: those that are neither \<open>null\<close> nor empty, in hierarchy
  order.\<close>

definition supplied_labels :: "jsstring option list \<Rightarrow> jsstring list" where
  "supplied_labels ls = [s. Some s \<leftarrow> ls, s \<noteq> []]"

text \<open>\<open>Classify\<close> of the specification: the two fixed thresholds on the score pair.\<close>

definition Classify :: "real \<Rightarrow> real \<Rightarrow> bool" where
  "Classify intent_sim lexical_sim = (intent_sim \<ge> 0.7 \<and> lexical_sim \<ge> 0.3)"

text \<open>The case-folded white-space token set of an intent string, and the Jaccard index
  of two token sets, which the specification takes to be 0 when either set is empty.\<close>

definition token_set :: "jsstring \<Rightarrow> jsstring set" where
  "token_set s = {w \<in> set (split_ws (toLowerCase s)). w \<noteq> []}"

definition jaccard :: "jsstring set \<Rightarrow> jsstring set \<Rightarrow> real" where
  "jaccard A B = (if A = {} \<or> B = {} then 0 else real (card (A \<inter> B)) / real (card (A \<union> B)))"

text \<open>The order of the ranking, read from the three keys: \<open>outranks a b\<close> says that \<open>a\<close>
  has to stand before \<open>b\<close>. Two intent scores are tied when they differ by at most 0.01. A
  list is sorted by the keys when no element is outranked by a later one.\<close>

definition tied :: "SearchResult \<Rightarrow> SearchResult \<Rightarrow> bool" where
  "tied a b = (\<bar>intent_similarity a - intent_similarity b\<bar> \<le> 0.01)"

definition outranks :: "SearchResult \<Rightarrow> SearchResult \<Rightarrow> bool" where
  "outranks a b =
     ((is_duplicate a \<and> \<not> is_duplicate b)
      \<or> (is_duplicate a = is_duplicate b
          \<and> ((\<not> tied a b \<and> intent_similarity a > intent_similarity b)
              \<or> (tied a b \<and> text_similarity a > text_similarity b))))"

definition sorted_by_keys :: "SearchResult list \<Rightarrow> bool" where
  "sorted_by_keys xs = sorted_wrt (\<lambda>a b. \<not> outranks b a) xs"

text \<open>Weaker orders of a list: every element and its successor are in order, and every
  duplicate stands before every record that is not one.\<close>

definition neighbours_in_order :: "SearchResult list \<Rightarrow> bool" where
  "neighbours_in_order xs = successively (\<lambda>a b. \<not> outranks b a) xs"

definition duplicates_first :: "SearchResult list \<Rightarrow> bool" where
  "duplicates_first xs = sorted_wrt (\<lambda>a b. is_duplicate b \<longrightarrow> is_duplicate a) xs"

text \<open>The tie relation is transitive on the scores of a list: the comparator is then a
  consistent ordering of its elements.\<close>

definition ties_transitive :: "SearchResult list \<Rightarrow> bool" where
  "ties_transitive xs =
     (\<forall>x \<in> set xs. \<forall>y \<in> set xs. \<forall>z \<in> set xs. tied x y \<and> tied y z \<longrightarrow> tied x z)"

text \<open>The number of documents of a corpus that contain a word.\<close>

definition doc_freq :: "jsstring list list \<Rightarrow> jsstring \<Rightarrow> nat" where
  "doc_freq docs w = length (filter (\<lambda>d. w \<in> set d) docs)"

text \<open>The array \<open>results\<close> after \<open>results.sort\<close>.\<close>

definition ranked_results :: "jsstring \<Rightarrow> FunctionRecord list \<Rightarrow> SearchResult list" where
  "ranked_results q records = js_sort compare_results (scoreRecords q records)"

section \<open>Example libraries\<close>

text \<open>A record of the table with the given id, search text and stored intent.\<close>

definition example_record :: "int \<Rightarrow> jsstring \<Rightarrow> jsstring option \<Rightarrow> FunctionRecord" where
  "example_record i text intent =
     \<lparr> record_id = i, source_dir = [], source_file = [], row_number = i + 1,
       level_1 = None, function_point = None, sub_function = None,
       search_text = text, intent_text = intent \<rparr>"

text \<open>The query U+6253 U+5F00 ("open").\<close>

definition query_open :: jsstring where
  "query_open = [0x6253, 0x5F00]"

text \<open>Six records without a stored intent: five with the search text \<open>z\<close> and, last, one
  with the search text "open".\<close>

definition library_six :: "FunctionRecord list" where
  "library_six =
     [example_record 1 [0x7A] None, example_record 2 [0x7A] None,
      example_record 3 [0x7A] None, example_record 4 [0x7A] None,
      example_record 5 [0x7A] None, example_record 6 [0x6253, 0x5F00] None]"

text \<open>Three records whose stored intents are "open" followed by 9, 10 and 11 one-letter
  tokens, and whose search texts are \<open>z\<close>, "open y" and "open".\<close>

definition intent_10 :: jsstring where
  "intent_10 = [0x6253, 0x5F00, 0x20, 0x61, 0x20, 0x62, 0x20, 0x63, 0x20, 0x64, 0x20, 0x65,
       0x20, 0x66, 0x20, 0x67, 0x20, 0x68, 0x20, 0x69]"

definition intent_11 :: jsstring where
  "intent_11 = [0x6253, 0x5F00, 0x20, 0x61, 0x20, 0x62, 0x20, 0x63, 0x20, 0x64, 0x20, 0x65,
       0x20, 0x66, 0x20, 0x67, 0x20, 0x68, 0x20, 0x69, 0x20, 0x6A]"

definition intent_12 :: jsstring where
  "intent_12 = [0x6253, 0x5F00, 0x20, 0x61, 0x20, 0x62, 0x20, 0x63, 0x20, 0x64, 0x20, 0x65,
       0x20, 0x66, 0x20, 0x67, 0x20, 0x68, 0x20, 0x69, 0x20, 0x6A, 0x20, 0x6B]"

definition library_cycle :: "FunctionRecord list" where
  "library_cycle =
     [example_record 1 [0x7A] (Some intent_10),
      example_record 2 [0x6253, 0x5F00, 0x20, 0x79] (Some intent_11),
      example_record 3 [0x6253, 0x5F00] (Some intent_12)]"

text \<open>The lexical similarity of the second of them to the query "open".\<close>

definition cycle_mid_score :: real where
  "cycle_mid_score = ln (4 / 3) / (2 * sqrt (ln (4 / 3) * ln (4 / 3) / 4 + ln 4 * ln 4 / 4))"

section \<open>Evaluation and basic facts\<close>

lemmas redact_defs =
  redact_slots_def match_slot_def preceded_by_verb_def LOOKBEHIND_VERBS_def
  LOOKAHEAD_PARTICLES_def QUERY_PLACEHOLDER_def is_open_quote_def is_close_quote_def
  is_line_terminator_def is_alnum_def is_cjk_def

lemmas normalize_defs =
  normalizeIntent_update_def normalizeIntent_csv_def normalize_word_def
  ACTION_NORMALIZATION_def FILLERS_def js_Set_def set_add_def trim_def is_space_def

lemmas search_normalize_defs =
  normalizeIntent_search_def extractAppName_def extractActions_def push_action_def
  APP_NAMES_def ACTION_MAP_def trim_def is_space_def

lemma str_includes_iff: "str_includes s t \<longleftrightarrow> (\<exists>p q. s = p @ t @ q)"
proof (induction s)
  case Nil
  then show ?case by simp
next
  case (Cons c cs)
  show ?case
  proof
    assume "str_includes (c # cs) t"
    then consider "take (length t) (c # cs) = t" | "str_includes cs t" by auto
    then show "\<exists>p q. c # cs = p @ t @ q"
    proof cases
      case 1
      then have "c # cs = [] @ t @ drop (length t) (c # cs)"
        by (metis append_Nil append_take_drop_id)
      then show ?thesis by blast
    next
      case 2
      then obtain p q where "cs = p @ t @ q" using Cons.IH by blast
      then have "c # cs = (c # p) @ t @ q" by simp
      then show ?thesis by blast
    qed
  next
    assume "\<exists>p q. c # cs = p @ t @ q"
    then obtain p q where pq: "c # cs = p @ t @ q" by blast
    show "str_includes (c # cs) t"
    proof (cases p)
      case Nil
      then have "take (length t) (c # cs) = t" using pq by simp
      then show ?thesis by simp
    next
      case (Cons a p')
      then have "cs = p' @ t @ q" using pq by simp
      then have "str_includes cs t" using Cons.IH by blast
      then show ?thesis by simp
    qed
  qed
qed

lemma scan_table_find:
  "scan_table es word ws =
     (case find (\<lambda>e. str_includes word (fst e)) es of
        None \<Rightarrow> (False, ws)
      | Some e \<Rightarrow> (True, if snd e \<in> set ws then ws else ws @ [snd e]))"
  by (induction es word ws rule: scan_table.induct) auto

lemma normalizeIntent_update_eq_csv: "normalizeIntent_update text = normalizeIntent_csv text"
  by (simp add: redact_defs normalize_defs)

lemma foldl_push_query:
  "foldl push_query parts qs = parts @ filter (\<lambda>n. n \<noteq> []) (map normalizeIntent_csv qs)"
  by (induction qs arbitrary: parts) (simp_all add: push_query_def Let_def)

lemma foldl_set_add_set: "set (foldl set_add acc xs) = set acc \<union> set xs"
  by (induction xs arbitrary: acc) (auto simp: set_add_def)

lemma foldl_set_add_distinct: "distinct acc \<Longrightarrow> distinct (foldl set_add acc xs)"
  by (induction xs arbitrary: acc) (auto simp: set_add_def)

lemma set_js_Set [simp]: "set (js_Set xs) = set xs"
  by (simp add: js_Set_def foldl_set_add_set)

lemma distinct_js_Set [simp]: "distinct (js_Set xs)"
  by (simp add: js_Set_def foldl_set_add_distinct)

lemma length_js_Set: "length (js_Set xs) = card (set xs)"
  using distinct_card [OF distinct_js_Set, of xs] by simp

lemma js_Set_Nil_iff [simp]: "js_Set xs = [] \<longleftrightarrow> xs = []"
  by (metis set_js_Set set_empty)

lemma set_insert_by [simp]: "set (insert_by cmp x ys) = insert x (set ys)"
  by (induction ys) auto

lemma set_js_sort [simp]: "set (js_sort cmp xs) = set xs"
  by (induction xs) auto

lemma mset_insert_by [simp]: "mset (insert_by cmp x ys) = add_mset x (mset ys)"
  by (induction ys) auto

lemma mset_js_sort [simp]: "mset (js_sort cmp xs) = mset xs"
  by (induction xs) auto

lemma length_js_sort [simp]: "length (js_sort cmp xs) = length xs"
  by (metis mset_js_sort size_mset)

lemma length_scoreRecords [simp]: "length (scoreRecords q records) = length records"
  by (simp add: scoreRecords_def Let_def)

text \<open>The two shapes of a successful response.\<close>

lemma search_similar_Inr:
  assumes "search_similar query fetch = Inr resp"
  shows "\<exists>q. query = JString q \<and> q \<noteq> [] \<and>
           (resp = empty_library \<or>
            (\<exists>records. fetch = Fetch_data (Some records) \<and> records \<noteq> [] \<and>
               resp = \<lparr> results = take 5 (js_sort compare_results (scoreRecords q records)),
                        message = None, totalRecords = Some (length records),
                        queryIntent = Some (normalizeIntent_search q),
                        hasDuplicate = Some (list_ex is_duplicate
                          (take 5 (js_sort compare_results (scoreRecords q records)))) \<rparr>))"
  using assms
  by (auto simp: search_similar_def Let_def
      split: jsvalue.splits if_splits fetched.splits option.splits)

lemma search_similar_results_subset:
  assumes "search_similar query fetch = Inr resp"
  shows "\<exists>q records. query = JString q \<and> set (results resp) \<subseteq> set (scoreRecords q records)"
proof -
  from search_similar_Inr [OF assms] obtain q where q: "query = JString q"
    and alt: "resp = empty_library \<or>
            (\<exists>records. results resp = take 5 (js_sort compare_results (scoreRecords q records)))"
    by force
  from alt show ?thesis
  proof
    assume "resp = empty_library"
    then have "set (results resp) \<subseteq> set (scoreRecords q [])"
      by (simp add: empty_library_def)
    with q show ?thesis by blast
  next
    assume "\<exists>records. results resp = take 5 (js_sort compare_results (scoreRecords q records))"
    then obtain records where "results resp = take 5 (js_sort compare_results (scoreRecords q records))"
      by blast
    then have "set (results resp) \<subseteq> set (scoreRecords q records)"
      using set_take_subset [of 5 "js_sort compare_results (scoreRecords q records)"] by simp
    with q show ?thesis by blast
  qed
qed

lemma search_similar_nonempty:
  "q \<noteq> [] \<Longrightarrow> records \<noteq> [] \<Longrightarrow>
     search_similar (JString q) (Fetch_data (Some records)) =
       Inr \<lparr> results = take 5 (js_sort compare_results (scoreRecords q records)),
             message = None, totalRecords = Some (length records),
             queryIntent = Some (normalizeIntent_search q),
             hasDuplicate = Some (list_ex is_duplicate
               (take 5 (js_sort compare_results (scoreRecords q records)))) \<rparr>"
  by (simp add: search_similar_def Let_def)

lemma is_duplicate_score_record:
  "is_duplicate (score_record qi idf qv r ws) =
     Classify (intent_similarity (score_record qi idf qv r ws))
              (text_similarity (score_record qi idf qv r ws))"
  by (simp add: score_record_def Classify_def Let_def)

lemma scoreRecords_Classify:
  "r \<in> set (scoreRecords q records) \<Longrightarrow>
     is_duplicate r = Classify (intent_similarity r) (text_similarity r)"
  unfolding scoreRecords_def Let_def using is_duplicate_score_record by auto

lemma tokens_eq: "set (filter (\<lambda>w. 0 < length w) (split_ws (toLowerCase s))) = token_set s"
  by (auto simp: token_set_def)

lemma computeIntentSimilarity_jaccard:
  "computeIntentSimilarity query record =
     (if extractAppName query \<noteq> None \<and> extractAppName record \<noteq> None
         \<and> extractAppName query \<noteq> extractAppName record
      then jaccard (token_set query) (token_set record) * 0.3
      else jaccard (token_set query) (token_set record))"
proof -
  have ts_empty: "token_set [] = {}"
    by (simp add: token_set_def toLowerCase_def)
  have len_inter:
    "length (js_Set (filter (\<lambda>x. x \<in> set (js_Set ys)) (js_Set xs))) = card (set xs \<inter> set ys)"
    for xs ys :: "jsstring list"
    by (simp add: length_js_Set Int_def conj_commute)
  have len_union: "length (js_Set (js_Set xs @ js_Set ys)) = card (set xs \<union> set ys)"
    for xs ys :: "jsstring list"
    by (simp add: length_js_Set)
  have nil_iff:
    "filter (\<lambda>w. 0 < length w) (split_ws (toLowerCase s)) = [] \<longleftrightarrow> token_set s = {}" for s
    by (metis tokens_eq set_empty)
  show ?thesis
    unfolding computeIntentSimilarity_def Let_def len_inter len_union nil_iff tokens_eq
      extractAppName_def jaccard_def
    by (auto simp: ts_empty)
qed

subsection \<open>The comparator and the sort\<close>

lemma tied_sym: "tied a b = tied b a"
  by (simp add: tied_def abs_minus_commute)

lemma compare_results_pos: "compare_results a b > 0 \<longleftrightarrow> outranks b a"
  unfolding compare_results_def outranks_def tied_sym [of b a] unfolding tied_def
  by (cases "is_duplicate a"; cases "is_duplicate b"; simp; linarith)

lemma compare_results_le: "compare_results a b \<le> 0 \<longleftrightarrow> \<not> outranks b a"
  using compare_results_pos [of a b] by auto

lemma compare_results_neg: "compare_results a b < 0 \<longleftrightarrow> outranks a b"
  unfolding compare_results_def outranks_def tied_def
  by (cases "is_duplicate a"; cases "is_duplicate b"; simp; linarith)

lemma outranks_asym: "outranks a b \<Longrightarrow> \<not> outranks b a"
  using compare_results_pos [of b a] compare_results_neg [of b a] by auto

lemma not_outranks_trans:
  assumes t: "tied x y \<and> tied y z \<longrightarrow> tied x z" "tied y x \<and> tied x z \<longrightarrow> tied y z"
     "tied x z \<and> tied z y \<longrightarrow> tied x y"
    and "\<not> outranks y x" "\<not> outranks z y"
  shows "\<not> outranks z x"
  using assms unfolding outranks_def tied_def
  by argo

lemma hd_insert_by: "hd (insert_by cmp x ys) = (if ys = [] \<or> cmp x (hd ys) \<le> 0 then x else hd ys)"
  by (cases ys) auto

lemma insert_by_neq_Nil [simp]: "insert_by cmp x ys \<noteq> []"
  by (cases ys) auto

lemma js_sort_Nil_iff [simp]: "js_sort cmp xs = [] \<longleftrightarrow> xs = []"
  by (cases xs) auto

lemma scoreRecords_Nil_iff [simp]: "scoreRecords q records = [] \<longleftrightarrow> records = []"
  by (metis length_scoreRecords length_0_conv)

lemma successively_insert_by:
  assumes "successively (\<lambda>a b. cmp a b \<le> 0) ys" and "\<And>a b. cmp a b > 0 \<Longrightarrow> cmp b a \<le> 0"
  shows "successively (\<lambda>a b. cmp a b \<le> 0) (insert_by cmp x ys)"
  using assms(1)
proof (induction ys)
  case Nil
  then show ?case by simp
next
  case (Cons y ys)
  show ?case
  proof (cases "cmp x y \<le> 0")
    case True
    then show ?thesis using Cons.prems by simp
  next
    case False
    then have yx: "cmp y x \<le> 0" using assms(2) [of x y] by simp
    have "successively (\<lambda>a b. cmp a b \<le> 0) ys"
      using Cons.prems by (auto simp: successively_Cons)
    then have tl: "successively (\<lambda>a b. cmp a b \<le> 0) (insert_by cmp x ys)"
      by (rule Cons.IH)
    have "cmp y (hd (insert_by cmp x ys)) \<le> 0"
      using yx Cons.prems by (auto simp: hd_insert_by successively_Cons)
    with tl False show ?thesis by (simp add: successively_Cons)
  qed
qed


lemma successively_js_sort:
  assumes "\<And>a b. cmp a b > 0 \<Longrightarrow> cmp b a \<le> 0"
  shows "successively (\<lambda>a b. cmp a b \<le> 0) (js_sort cmp xs)"
  by (induction xs) (simp_all add: successively_insert_by assms)

lemma neighbours_in_order_js_sort: "neighbours_in_order (js_sort compare_results xs)"
proof -
  have "successively (\<lambda>a b. compare_results a b \<le> 0) (js_sort compare_results xs)"
    by (rule successively_js_sort) (use compare_results_pos outranks_asym compare_results_le in blast)
  then show ?thesis by (simp add: neighbours_in_order_def compare_results_le)
qed

lemma neighbours_duplicates_first:
  assumes "neighbours_in_order xs" shows "duplicates_first xs"
proof -
  have "successively (\<lambda>a b. is_duplicate b \<longrightarrow> is_duplicate a) xs"
    using assms unfolding neighbours_in_order_def
    by (induction xs rule: induct_list012) (auto simp: outranks_def)
  moreover have "transp (\<lambda>a b :: SearchResult. is_duplicate b \<longrightarrow> is_duplicate a)"
    by (auto intro: transpI)
  ultimately show ?thesis
    unfolding duplicates_first_def by (simp add: successively_conv_sorted_wrt)
qed

lemma neighbours_sorted_by_keys:
  assumes "neighbours_in_order xs" and "ties_transitive xs"
  shows "sorted_by_keys xs"
proof -
  have "\<not> outranks z x" if "x \<in> set xs" "y \<in> set xs" "z \<in> set xs" "\<not> outranks y x" "\<not> outranks z y"
    for x y z
    using not_outranks_trans [of x y z] that assms(2) unfolding ties_transitive_def by blast
  then have "successively (\<lambda>a b. \<not> outranks b a) xs = sorted_wrt (\<lambda>a b. \<not> outranks b a) xs"
    by (rule successively_iff_sorted_wrt_strong)
  with assms(1) show ?thesis by (simp add: neighbours_in_order_def sorted_by_keys_def)
qed

lemma duplicates_first_hd:
  assumes "duplicates_first xs" and "list_ex is_duplicate xs"
  shows "is_duplicate (hd xs)"
  using assms by (cases xs) (auto simp: duplicates_first_def list_ex_iff)

lemma list_ex_take_duplicates_first:
  assumes "duplicates_first xs" and "0 < n"
  shows "list_ex is_duplicate (take n xs) = list_ex is_duplicate xs"
proof
  assume "list_ex is_duplicate (take n xs)"
  then show "list_ex is_duplicate xs" by (auto simp: list_ex_iff dest: in_set_takeD)
next
  assume ex: "list_ex is_duplicate xs"
  then have "xs \<noteq> []" by auto
  then have "hd xs \<in> set (take n xs)" using assms(2) by (cases xs; cases n) auto
  moreover have "is_duplicate (hd xs)" using duplicates_first_hd [OF assms(1) ex] .
  ultimately show "list_ex is_duplicate (take n xs)" by (auto simp: list_ex_iff)
qed

subsection \<open>Maps, term frequencies and document frequencies\<close>

lemma map_of_map_set: "map_of (map_set m k v) = (map_of m)(k \<mapsto> v)"
  by (induction m k v rule: map_set.induct) auto

lemma set_map_set: "set (map_set m k v) \<subseteq> set m \<union> {(k, v)}"
  by (induction m k v rule: map_set.induct) auto

lemma keys_map_set: "fst ` set (map_set m k v) = insert k (fst ` set m)"
  by (induction m k v rule: map_set.induct) auto

lemma distinct_map_set: "distinct (map fst m) \<Longrightarrow> distinct (map fst (map_set m k v))"
proof (induction m k v rule: map_set.induct)
  case (1 k v)
  then show ?case by simp
next
  case (2 k' v' m k v)
  then show ?case using keys_map_set [of m k v] by (auto simp: image_iff)
qed

lemma get_or0_count_up:
  "get_or0 (count_up m w) w' = (if w' = w then get_or0 m w + 1 else get_or0 m w')"
  by (simp add: count_up_def get_or0_def map_of_map_set)

lemma get_or0_foldl_count_up:
  "get_or0 (foldl count_up m ws) w = get_or0 m w + real (count_list ws w)"
  by (induction ws arbitrary: m) (auto simp: get_or0_count_up)

lemma distinct_foldl_count_up:
  "distinct (map fst m) \<Longrightarrow> distinct (map fst (foldl count_up m ws))"
  by (induction ws arbitrary: m) (auto simp: count_up_def distinct_map_set)

lemma keys_foldl_count_up: "fst ` set (foldl count_up m ws) = fst ` set m \<union> set ws"
  by (induction ws arbitrary: m) (auto simp: count_up_def keys_map_set)

lemma get_or0_entry: "distinct (map fst m) \<Longrightarrow> (k, v) \<in> set m \<Longrightarrow> get_or0 m k = v"
  by (simp add: get_or0_def)

lemma get_or0_missing: "k \<notin> fst ` set m \<Longrightarrow> get_or0 m k = 0"
proof -
  assume "k \<notin> fst ` set m"
  then have "map_of m k = None" by (simp add: map_of_eq_None_iff)
  then show ?thesis by (simp add: get_or0_def)
qed

lemma get_or0_Nil [simp]: "get_or0 [] k = 0"
  by (simp add: get_or0_def)

text \<open>Counts of the term-frequency loop.\<close>

lemma tf_counts:
  assumes "(w, c) \<in> set (foldl count_up [] words)"
  shows "c = real (count_list words w) \<and> w \<in> set words"
proof -
  have d: "distinct (map fst (foldl count_up [] words))"
    by (rule distinct_foldl_count_up) simp
  have "get_or0 (foldl count_up [] words) w = c" using get_or0_entry [OF d assms] .
  then have "c = real (count_list words w)" by (simp add: get_or0_foldl_count_up)
  moreover have "w \<in> set words" using assms keys_foldl_count_up [of "[]" words]
    by (metis empty_iff empty_set fst_conv image_empty image_eqI sup_bot.left_neutral)
  ultimately show ?thesis by blast
qed

lemma computeTermFrequency_entry:
  assumes "(w, v) \<in> set (computeTermFrequency words)"
  shows "v = real (count_list words w) / real (length words) \<and> w \<in> set words \<and> 0 < v \<and> v \<le> 1"
proof -
  from assms have ne: "words \<noteq> []" by (auto simp: computeTermFrequency_def)
  from assms obtain c where c: "(w, c) \<in> set (foldl count_up [] words)"
    and v: "v = c / real (length words)"
    by (auto simp: computeTermFrequency_def Let_def split: if_splits)
  from tf_counts [OF c] have cc: "c = real (count_list words w)" and w: "w \<in> set words" by auto
  have "0 < count_list words w" using w by (metis count_list_0_iff gr0I)
  moreover have "count_list words w \<le> length words" by (rule count_le_length)
  ultimately show ?thesis using v cc w ne by (simp add: divide_le_eq_1)
qed

text \<open>Counts of the document-frequency loop: a document counts a word once.\<close>


lemma count_list_js_Set: "count_list (js_Set d) w = (if w \<in> set d then 1 else 0)"
  using distinct_js_Set [of d] by (simp add: distinct_count_atmost_1 count_mset [symmetric] del: count_mset)

lemma df_loop_get:
  "get_or0 (foldl (\<lambda>m doc. foldl count_up m (js_Set doc)) m docs) w
     = get_or0 m w + real (doc_freq docs w)"
  by (induction docs arbitrary: m) (auto simp: get_or0_foldl_count_up count_list_js_Set doc_freq_def)

lemma df_loop_distinct:
  "distinct (map fst m) \<Longrightarrow>
     distinct (map fst (foldl (\<lambda>m doc. foldl count_up m (js_Set doc)) m docs))"
  by (induction docs arbitrary: m) (auto simp: distinct_foldl_count_up)

lemma df_loop_keys:
  "fst ` set (foldl (\<lambda>m doc. foldl count_up m (js_Set doc)) m docs) = fst ` set m \<union> \<Union> (set ` set docs)"
  by (induction docs arbitrary: m) (auto simp: keys_foldl_count_up)

lemma doc_freq_le: "doc_freq docs w \<le> length docs"
  by (simp add: doc_freq_def)

lemma doc_freq_pos: "w \<in> \<Union> (set ` set docs) \<Longrightarrow> 0 < doc_freq docs w"
  by (auto simp: doc_freq_def filter_empty_conv)

lemma computeIDF_entry:
  assumes "(w, v) \<in> set (computeIDF docs)"
  shows "v = ln (real (length docs) / real (doc_freq docs w))
         \<and> 0 < doc_freq docs w \<and> doc_freq docs w \<le> length docs \<and> 0 \<le> v"
proof -
  let ?m = "foldl (\<lambda>m doc. foldl count_up m (js_Set doc)) [] docs"
  from assms obtain c where c: "(w, c) \<in> set ?m" and v: "v = ln (real (length docs) / c)"
    by (auto simp: computeIDF_def Let_def split: if_splits)
  have d: "distinct (map fst ?m)" by (rule df_loop_distinct) simp
  have "get_or0 ?m w = c" using get_or0_entry [OF d c] .
  then have cc: "c = real (doc_freq docs w)" by (simp add: df_loop_get)
  have "w \<in> fst ` set ?m" using c by force
  then have "w \<in> \<Union> (set ` set docs)" unfolding df_loop_keys by simp
  then have pos: "0 < doc_freq docs w" by (rule doc_freq_pos)
  have le: "doc_freq docs w \<le> length docs" by (rule doc_freq_le)
  have "1 \<le> real (length docs) / real (doc_freq docs w)"
    using pos le by (simp add: le_divide_eq_1)
  then have "0 \<le> v" unfolding v cc by simp
  with v cc pos le show ?thesis by simp
qed

lemma get_or0_computeIDF_nonneg: "0 \<le> get_or0 (computeIDF docs) w"
proof (cases "map_of (computeIDF docs) w")
  case None
  then show ?thesis by (simp add: get_or0_def)
next
  case (Some v)
  then have "(w, v) \<in> set (computeIDF docs)" by (rule map_of_SomeD)
  then have "0 \<le> v" using computeIDF_entry by blast
  with Some show ?thesis by (simp add: get_or0_def)
qed

lemma computeTFIDF_nonneg:
  assumes "e \<in> set (computeTFIDF (computeTermFrequency words) (computeIDF docs))"
  shows "0 \<le> snd e"
proof -
  from assms obtain w t where "(w, t) \<in> set (computeTermFrequency words)"
    and e: "e = (w, t * get_or0 (computeIDF docs) w)"
    by (auto simp: computeTFIDF_def)
  then have "0 < t" using computeTermFrequency_entry by blast
  then show ?thesis using e get_or0_computeIDF_nonneg [of docs w] by simp
qed

subsection \<open>Cosine similarity and the bounds of the scores\<close>

lemma cosine_fold:
  "foldl (cosine_step vec1 vec2) (d, n1, n2) ws =
     (d + (\<Sum>w\<leftarrow>ws. get_or0 vec1 w * get_or0 vec2 w),
      n1 + (\<Sum>w\<leftarrow>ws. get_or0 vec1 w * get_or0 vec1 w),
      n2 + (\<Sum>w\<leftarrow>ws. get_or0 vec2 w * get_or0 vec2 w))"
  by (induction ws arbitrary: d n1 n2) (simp_all add: cosine_step_def Let_def algebra_simps)

lemma cosine_sums_eq:
  "cosine_sums vec1 vec2 =
     ((\<Sum>w\<leftarrow>js_Set (map fst vec1 @ map fst vec2). get_or0 vec1 w * get_or0 vec2 w),
      (\<Sum>w\<leftarrow>js_Set (map fst vec1 @ map fst vec2). get_or0 vec1 w * get_or0 vec1 w),
      (\<Sum>w\<leftarrow>js_Set (map fst vec1 @ map fst vec2). get_or0 vec2 w * get_or0 vec2 w))"
  by (simp add: cosine_sums_def cosine_fold)


lemma cauchy_schwarz_step:
  fixes a b S A B :: real
  assumes IH: "S\<^sup>2 \<le> A * B" and A: "0 \<le> A" and B: "0 \<le> B"
  shows "(a * b + S)\<^sup>2 \<le> (a * a + A) * (b * b + B)"
proof -
  have "(2 * a * b * S)\<^sup>2 = 4 * (a * a) * (b * b) * S\<^sup>2"
    by (simp add: power2_eq_square)
  also have "\<dots> \<le> 4 * (a * a) * (b * b) * (A * B)"
    using IH by (intro mult_left_mono) simp_all
  also have "\<dots> \<le> (a * a * B + b * b * A)\<^sup>2"
  proof -
    have "0 \<le> (a * a * B - b * b * A)\<^sup>2" by simp
    then show ?thesis by (simp add: power2_eq_square algebra_simps)
  qed
  finally have "(2 * a * b * S)\<^sup>2 \<le> (a * a * B + b * b * A)\<^sup>2" .
  moreover have "0 \<le> a * a * B + b * b * A" using A B by simp
  ultimately have "2 * a * b * S \<le> a * a * B + b * b * A"
    by (rule power2_le_imp_le)
  moreover have "(a * b + S)\<^sup>2 = a * a * (b * b) + 2 * a * b * S + S\<^sup>2"
    by (simp add: power2_eq_square algebra_simps)
  moreover have "(a * a + A) * (b * b + B) = a * a * (b * b) + (a * a * B + b * b * A) + A * B"
    by (simp add: algebra_simps)
  ultimately show ?thesis using IH by linarith
qed

lemma cauchy_schwarz_list:
  fixes f g :: "'a \<Rightarrow> real"
  shows "(\<Sum>x\<leftarrow>xs. f x * g x)\<^sup>2 \<le> (\<Sum>x\<leftarrow>xs. f x * f x) * (\<Sum>x\<leftarrow>xs. g x * g x)"
proof (induction xs)
  case Nil
  then show ?case by simp
next
  case (Cons x xs)
  have A: "0 \<le> (\<Sum>x\<leftarrow>xs. f x * f x)" by (rule sum_list_nonneg) auto
  have B: "0 \<le> (\<Sum>x\<leftarrow>xs. g x * g x)" by (rule sum_list_nonneg) auto
  show ?case using cauchy_schwarz_step [OF Cons.IH A B, of "f x" "g x"] by simp
qed

lemma cosineSimilarity_le_1: "cosineSimilarity vec1 vec2 \<le> 1"
proof -
  obtain d n1 n2 where s: "cosine_sums vec1 vec2 = (d, n1, n2)" by (cases "cosine_sums vec1 vec2")
  let ?ws = "js_Set (map fst vec1 @ map fst vec2)"
  from s have d: "d = (\<Sum>w\<leftarrow>?ws. get_or0 vec1 w * get_or0 vec2 w)"
    and n1: "n1 = (\<Sum>w\<leftarrow>?ws. get_or0 vec1 w * get_or0 vec1 w)"
    and n2: "n2 = (\<Sum>w\<leftarrow>?ws. get_or0 vec2 w * get_or0 vec2 w)"
    by (simp_all add: cosine_sums_eq)
  have cs: "d\<^sup>2 \<le> n1 * n2" unfolding d n1 n2 by (rule cauchy_schwarz_list)
  have p1: "0 \<le> n1" unfolding n1 by (rule sum_list_nonneg) auto
  have p2: "0 \<le> n2" unfolding n2 by (rule sum_list_nonneg) auto
  show ?thesis
  proof (cases "n1 = 0 \<or> n2 = 0")
    case True
    then show ?thesis by (auto simp: cosineSimilarity_def s)
  next
    case False
    then have pos: "0 < sqrt n1 * sqrt n2" using p1 p2 by simp
    have "d \<le> sqrt (n1 * n2)" using cs by (rule real_le_rsqrt)
    then have "d \<le> sqrt n1 * sqrt n2" by (simp add: real_sqrt_mult)
    then have "d / (sqrt n1 * sqrt n2) \<le> 1" using pos by (simp add: divide_le_eq_1)
    then show ?thesis using False by (simp add: cosineSimilarity_def s)
  qed
qed

lemma cosine_sums_norms:
  assumes "cosine_sums vec1 vec2 = (d, n1, n2)"
  shows "0 \<le> n1 \<and> 0 \<le> n2 \<and> (n1 \<noteq> 0 \<and> n2 \<noteq> 0 \<longrightarrow> sqrt n1 * sqrt n2 \<noteq> 0)"
proof -
  let ?ws = "js_Set (map fst vec1 @ map fst vec2)"
  from assms have n1: "n1 = (\<Sum>w\<leftarrow>?ws. get_or0 vec1 w * get_or0 vec1 w)"
    and n2: "n2 = (\<Sum>w\<leftarrow>?ws. get_or0 vec2 w * get_or0 vec2 w)"
    by (simp_all add: cosine_sums_eq)
  have p1: "0 \<le> n1" unfolding n1 by (rule sum_list_nonneg) auto
  have p2: "0 \<le> n2" unfolding n2 by (rule sum_list_nonneg) auto
  then show ?thesis using p1 by simp
qed

lemma cosineSimilarity_nonneg:
  assumes "\<And>e. e \<in> set vec1 \<Longrightarrow> 0 \<le> snd e" and "\<And>e. e \<in> set vec2 \<Longrightarrow> 0 \<le> snd e"
  shows "0 \<le> cosineSimilarity vec1 vec2"
proof -
  have g1: "0 \<le> get_or0 vec1 w" for w
    using assms(1) by (auto simp: get_or0_def split: option.splits dest: map_of_SomeD)
  have g2: "0 \<le> get_or0 vec2 w" for w
    using assms(2) by (auto simp: get_or0_def split: option.splits dest: map_of_SomeD)
  obtain d n1 n2 where s: "cosine_sums vec1 vec2 = (d, n1, n2)" by (cases "cosine_sums vec1 vec2")
  let ?ws = "js_Set (map fst vec1 @ map fst vec2)"
  from s have d: "d = (\<Sum>w\<leftarrow>?ws. get_or0 vec1 w * get_or0 vec2 w)"
    by (simp_all add: cosine_sums_eq)
  have "0 \<le> d" unfolding d by (rule sum_list_nonneg) (auto simp: g1 g2)
  moreover have "0 \<le> sqrt n1 * sqrt n2" using cosine_sums_norms [OF s] by simp
  ultimately have "0 \<le> d / (sqrt n1 * sqrt n2)" by (rule divide_nonneg_nonneg)
  then show ?thesis by (simp add: cosineSimilarity_def s)
qed

lemma jaccard_bounds: "0 \<le> jaccard A B \<and> jaccard A B \<le> 1"
proof (cases "A = {} \<or> B = {} \<or> infinite (A \<union> B)")
  case True
  then show ?thesis by (auto simp: jaccard_def)
next
  case False
  then have "card (A \<inter> B) \<le> card (A \<union> B)" by (intro card_mono) auto
  moreover have "0 < card (A \<union> B)" using False by (auto simp: card_gt_0_iff)
  ultimately show ?thesis using False by (simp add: jaccard_def divide_le_eq_1)
qed

lemma computeIntentSimilarity_bounds:
  "0 \<le> computeIntentSimilarity a b \<and> computeIntentSimilarity a b \<le> 1"
proof -
  have "0 \<le> jaccard (token_set a) (token_set b) * 0.3 \<and> jaccard (token_set a) (token_set b) * 0.3 \<le> 1"
    using jaccard_bounds [of "token_set a" "token_set b"] by simp
  then show ?thesis
    using jaccard_bounds [of "token_set a" "token_set b"]
    unfolding computeIntentSimilarity_jaccard by presburger
qed

lemma scoreRecords_bounds:
  assumes "r \<in> set (scoreRecords q records)"
  shows "0 \<le> intent_similarity r \<and> intent_similarity r \<le> 1
         \<and> 0 \<le> text_similarity r \<and> text_similarity r \<le> 1"
proof -
  from assms obtain qi idf qw rr ws where
    r: "r = score_record qi idf (computeTFIDF (computeTermFrequency qw) idf) rr ws"
    and idf: "idf = computeIDF (map (\<lambda>r. preprocessText (search_text r)) records @ [qw])"
    by (auto simp: scoreRecords_def Let_def)
  obtain ri where i: "intent_similarity r = computeIntentSimilarity qi ri"
    unfolding r by (simp add: score_record_def Let_def)
  have t: "text_similarity r = cosineSimilarity (computeTFIDF (computeTermFrequency qw) idf)
            (computeTFIDF (computeTermFrequency ws) idf)"
    unfolding r by (simp add: score_record_def Let_def)
  have "0 \<le> text_similarity r"
    unfolding t idf by (rule cosineSimilarity_nonneg) (rule computeTFIDF_nonneg, assumption)+
  moreover have "text_similarity r \<le> 1" unfolding t by (rule cosineSimilarity_le_1)
  ultimately show ?thesis using computeIntentSimilarity_bounds [of qi ri] i by simp
qed

subsection \<open>The scores of the example libraries\<close>

lemmas tfidf_defs = preprocessText_def computeIDF_def computeTermFrequency_def computeTFIDF_def
  cosineSimilarity_def cosine_sums_def cosine_step_def count_up_def get_or0_def toLowerCase_def
  is_word_char_def is_alnum_def is_cjk_def is_space_def js_Set_def set_add_def

lemma normalizeIntent_search_z: "normalizeIntent_search [0x7A] = [0x7A]"
  by (simp add: search_normalize_defs removeContentParams_def CONTENT_KEYWORDS_def keep_word_def
       is_open_quote_def is_cjk_def)

lemma normalizeIntent_search_open: "normalizeIntent_search [0x6253, 0x5F00] = [0x6253, 0x5F00]"
  by (simp add: search_normalize_defs)

lemma no_app_open: "find (\<lambda>app. str_includes [0x6253, 0x5F00] app) APP_NAMES = None"
  by (simp add: APP_NAMES_def)

lemma words_open:
  "filter (\<lambda>w. 0 < length w) (split_ws (toLowerCase [0x6253, 0x5F00])) = [[0x6253, 0x5F00]]"
  by (simp add: toLowerCase_def is_space_def)

lemma words_z: "filter (\<lambda>w. 0 < length w) (split_ws (toLowerCase [0x7A])) = [[0x7A]]"
  by (simp add: toLowerCase_def is_space_def)

lemma no_app_z: "find (\<lambda>app. str_includes [0x7A] app) APP_NAMES = None"
  by (simp add: APP_NAMES_def)

lemma intent_open_z: "computeIntentSimilarity [0x6253, 0x5F00] [0x7A] = 0"
  unfolding computeIntentSimilarity_def Let_def words_open words_z no_app_open no_app_z
  by (simp add: js_Set_def set_add_def)

lemma intent_open_open: "computeIntentSimilarity [0x6253, 0x5F00] [0x6253, 0x5F00] = 1"
  unfolding computeIntentSimilarity_def Let_def words_open no_app_open
  by (simp add: js_Set_def set_add_def)

lemma no_app_10: "find (\<lambda>app. str_includes intent_10 app) APP_NAMES = None"
  by (simp add: APP_NAMES_def intent_10_def)
lemma no_app_11: "find (\<lambda>app. str_includes intent_11 app) APP_NAMES = None"
  by (simp add: APP_NAMES_def intent_11_def)
lemma no_app_12: "find (\<lambda>app. str_includes intent_12 app) APP_NAMES = None"
  by (simp add: APP_NAMES_def intent_12_def)

lemma words_10: "filter (\<lambda>w. 0 < length w) (split_ws (toLowerCase intent_10)) =
    [[0x6253, 0x5F00], [0x61], [0x62], [0x63], [0x64], [0x65], [0x66], [0x67], [0x68], [0x69]]"
  by (simp add: toLowerCase_def is_space_def intent_10_def)
lemma words_11: "filter (\<lambda>w. 0 < length w) (split_ws (toLowerCase intent_11)) =
    [[0x6253, 0x5F00], [0x61], [0x62], [0x63], [0x64], [0x65], [0x66], [0x67], [0x68], [0x69], [0x6A]]"
  by (simp add: toLowerCase_def is_space_def intent_11_def)
lemma words_12: "filter (\<lambda>w. 0 < length w) (split_ws (toLowerCase intent_12)) =
    [[0x6253, 0x5F00], [0x61], [0x62], [0x63], [0x64], [0x65], [0x66], [0x67], [0x68], [0x69], [0x6A], [0x6B]]"
  by (simp add: toLowerCase_def is_space_def intent_12_def)

lemma intent_10_Nil: "intent_10 \<noteq> []" by (simp add: intent_10_def)
lemma intent_11_Nil: "intent_11 \<noteq> []" by (simp add: intent_11_def)
lemma intent_12_Nil: "intent_12 \<noteq> []" by (simp add: intent_12_def)

lemma intent_open_10: "computeIntentSimilarity [0x6253, 0x5F00] intent_10 = 1 / 10"
  unfolding computeIntentSimilarity_def Let_def words_open words_10 no_app_open no_app_10
  by (simp add: js_Set_def set_add_def intent_10_Nil)
lemma intent_open_11: "computeIntentSimilarity [0x6253, 0x5F00] intent_11 = 1 / 11"
  unfolding computeIntentSimilarity_def Let_def words_open words_11 no_app_open no_app_11
  by (simp add: js_Set_def set_add_def intent_11_Nil)
lemma intent_open_12: "computeIntentSimilarity [0x6253, 0x5F00] intent_12 = 1 / 12"
  unfolding computeIntentSimilarity_def Let_def words_open words_12 no_app_open no_app_12
  by (simp add: js_Set_def set_add_def intent_12_Nil)

lemma preprocess_open: "preprocessText [0x6253, 0x5F00] = [[0x6253, 0x5F00]]"
  by (simp add: tfidf_defs)

lemma preprocess_z: "preprocessText [0x7A] = [[0x7A]]"
  by (simp add: tfidf_defs)

lemma preprocess_open_y: "preprocessText [0x6253, 0x5F00, 0x20, 0x79] = [[0x6253, 0x5F00], [0x79]]"
  by (simp add: tfidf_defs)

lemmas vector_defs = computeIDF_def computeTermFrequency_def computeTFIDF_def
  cosineSimilarity_def cosine_sums_def cosine_step_def count_up_def get_or0_def
  js_Set_def set_add_def

lemma cycle_norm_pos: "0 < ln (4 / 3) * ln (4 / 3) / 4 + ln 4 * ln 4 / (4::real)"
proof -
  have "0 < ln (4::real)" by simp
  then have "0 < ln 4 * ln (4::real)" by simp
  then have "0 < ln 4 * ln (4::real) / 4" by simp
  moreover have "0 \<le> ln (4 / 3) * ln (4 / 3 :: real) / 4" by simp
  ultimately show ?thesis by (rule add_nonneg_pos [rotated])
qed

lemma cycle_mid_score_bounds: "0 < cycle_mid_score \<and> cycle_mid_score < 1"
proof -
  let ?L = "ln (4 / 3 :: real)" and ?M = "ln (4 :: real)"
  let ?X = "?L * ?L / 4 + ?M * ?M / 4"
  have L: "0 < ?L" by simp
  have M: "0 < ?M" by simp
  have "(?L / 2)\<^sup>2 < ?X" using M by (simp add: power2_eq_square)
  then have "?L / 2 < sqrt ?X" by (rule real_less_rsqrt)
  then have lt: "?L < 2 * sqrt ?X" by simp
  have pos: "0 < 2 * sqrt ?X" using cycle_norm_pos by simp
  have "0 < ?L / (2 * sqrt ?X)" using L pos by (rule divide_pos_pos)
  moreover have "?L / (2 * sqrt ?X) < 1" using lt pos by (simp add: divide_less_eq_1)
  ultimately show ?thesis by (simp add: cycle_mid_score_def)
qed

lemma scored_cycle:
  "map (\<lambda>r. (record_id r, intent_similarity r, text_similarity r, is_duplicate r))
     (scoreRecords query_open library_cycle)
   = [(1, 1 / 10, 0, False), (2, 1 / 11, cycle_mid_score, False), (3, 1 / 12, 1, False)]"
  using cycle_norm_pos
  by (simp add: scoreRecords_def score_record_def library_cycle_def example_record_def Let_def
      query_open_def intent_open_10 intent_open_11 intent_open_12
      intent_10_Nil intent_11_Nil intent_12_Nil normalizeIntent_search_open
      preprocess_open preprocess_z preprocess_open_y cycle_mid_score_def vector_defs)

lemma scored_six:
  "map (\<lambda>r. (record_id r, intent_similarity r, text_similarity r, is_duplicate r))
     (scoreRecords query_open library_six)
   = [(1, 0, 0, False), (2, 0, 0, False), (3, 0, 0, False), (4, 0, 0, False),
      (5, 0, 0, False), (6, 1, 1, True)]"
  by (simp add: scoreRecords_def score_record_def library_six_def example_record_def Let_def
      query_open_def normalizeIntent_search_open normalizeIntent_search_z intent_open_z
      intent_open_open preprocess_open preprocess_z vector_defs)

lemma list3: "length xs = 3 \<Longrightarrow> \<exists>x y z. xs = [x, y, z]"
  by (auto simp: numeral_3_eq_3 length_Suc_conv)

lemma cycle_elements:
  obtains x y z where "scoreRecords query_open library_cycle = [x, y, z]"
    and "intent_similarity x = 1 / 10" "text_similarity x = 0" "\<not> is_duplicate x"
    and "intent_similarity y = 1 / 11" "text_similarity y = cycle_mid_score" "\<not> is_duplicate y"
    and "intent_similarity z = 1 / 12" "text_similarity z = 1" "\<not> is_duplicate z"
proof -
  have "length (scoreRecords query_open library_cycle) = 3"
    by (simp add: library_cycle_def)
  then obtain x y z where xyz: "scoreRecords query_open library_cycle = [x, y, z]"
    using list3 by blast
  show ?thesis using scored_cycle that [OF xyz] unfolding xyz by simp
qed

lemma cycle_outranks:
  assumes "intent_similarity x = 1 / 10" "text_similarity x = 0" "\<not> is_duplicate x"
    and "intent_similarity y = 1 / 11" "text_similarity y = cycle_mid_score" "\<not> is_duplicate y"
    and "intent_similarity z = 1 / 12" "text_similarity z = 1" "\<not> is_duplicate z"
  shows "outranks y x \<and> outranks z y \<and> outranks x z"
  using assms cycle_mid_score_bounds by (simp add: outranks_def tied_def)

lemma no_sorted_arrangement_of_cycle:
  assumes "outranks y x" "outranks z y" "outranks x z"
    and "mset ranked = mset [x, y, z]"
  shows "\<not> sorted_by_keys ranked"
proof
  assume srt: "sorted_by_keys ranked"
  have d: "x \<noteq> y" "y \<noteq> z" "x \<noteq> z" using assms(1-3) outranks_asym by blast+
  from assms(4) have "ranked \<noteq> []" by auto
  then obtain h t where ht: "ranked = h # t" by (cases ranked) auto
  have after: "\<not> outranks u h" if "u \<in> set t" for u
    using srt that unfolding sorted_by_keys_def ht by simp
  have "h \<in># mset [x, y, z]" using assms(4) ht by (metis list.set_intros(1) set_mset_mset)
  then have h: "h = x \<or> h = y \<or> h = z" by auto
  have rest: "u \<in> set t" if "u \<in> {x, y, z}" "u \<noteq> h" for u
  proof -
    have "u \<in> set ranked" using that(1) assms(4) by (metis set_mset_mset list.simps(15) empty_set)
    then show ?thesis using that(2) ht by simp
  qed
  from h show False
  proof (elim disjE)
    assume "h = x" then show False using after [of y] rest [of y] d assms(1) by simp
  next
    assume "h = y" then show False using after [of z] rest [of z] d assms(2) by simp
  next
    assume "h = z" then show False using after [of x] rest [of x] d assms(3) by simp
  qed
qed

lemma six_elements:
  assumes "r \<in> set (scoreRecords query_open library_six)"
  shows "(intent_similarity r = 0 \<and> text_similarity r = 0 \<and> \<not> is_duplicate r)
       \<or> (intent_similarity r = 1 \<and> text_similarity r = 1 \<and> is_duplicate r)"
proof -
  let ?f = "\<lambda>r. (record_id r, intent_similarity r, text_similarity r, is_duplicate r)"
  have "?f r \<in> ?f ` set (scoreRecords query_open library_six)"
    using assms by (rule imageI)
  then have "?f r \<in> set (map ?f (scoreRecords query_open library_six))"
    by simp
  then show ?thesis unfolding scored_six by auto
qed

lemma six_last:
  "scoreRecords query_open library_six \<noteq> []
   \<and> is_duplicate (last (scoreRecords query_open library_six))
   \<and> intent_similarity (last (scoreRecords query_open library_six)) = 1
   \<and> text_similarity (last (scoreRecords query_open library_six)) = 1
   \<and> \<not> is_duplicate (hd (scoreRecords query_open library_six))"
proof -
  let ?f = "\<lambda>r. (record_id r, intent_similarity r, text_similarity r, is_duplicate r)"
  let ?S = "scoreRecords query_open library_six"
  have ne: "?S \<noteq> []" by (simp add: library_six_def)
  have "?f (last ?S) = last (map ?f ?S)" using ne by (simp add: last_map)
  moreover have "?f (hd ?S) = hd (map ?f ?S)" using ne by (simp add: hd_map)
  ultimately show ?thesis using ne unfolding scored_six by simp
qed

lemma six_ties_transitive: "ties_transitive (scoreRecords query_open library_six)"
proof -
  have eq: "intent_similarity x = intent_similarity y"
    if "x \<in> set (scoreRecords query_open library_six)"
      "y \<in> set (scoreRecords query_open library_six)" "tied x y" for x y
    using six_elements [OF that(1)] six_elements [OF that(2)] that(3)
    by (auto simp: tied_def)
  show ?thesis
    unfolding ties_transitive_def
  proof (intro ballI impI)
    fix x y z
    assume "x \<in> set (scoreRecords query_open library_six)"
      "y \<in> set (scoreRecords query_open library_six)"
      "z \<in> set (scoreRecords query_open library_six)" "tied x y \<and> tied y z"
    then have "intent_similarity x = intent_similarity z" using eq by metis
    then show "tied x z" by (simp add: tied_def)
  qed
qed

lemma six_has_duplicate: "list_ex is_duplicate (scoreRecords query_open library_six)"
  using six_last by (metis last_in_set list_ex_iff)

text \<open>The token sets and the application names of three intent strings: the
  application U+5168 U+6C11 K U+6B4C with "open", the application U+6296 U+97F3 with
  "open", and "open" alone.\<close>

lemma token_set_eval:
  "token_set [0x5168, 0x6C11, 0x4B, 0x6B4C, 0x20, 0x6253, 0x5F00]
     = {[0x5168, 0x6C11, 0x6B, 0x6B4C], [0x6253, 0x5F00]}"
  "token_set [0x6296, 0x97F3, 0x20, 0x6253, 0x5F00] = {[0x6296, 0x97F3], [0x6253, 0x5F00]}"
  "token_set [0x6253, 0x5F00] = {[0x6253, 0x5F00]}"
  unfolding tokens_eq [symmetric] by (simp_all add: toLowerCase_def is_space_def)

lemma app_eval:
  "extractAppName [0x5168, 0x6C11, 0x4B, 0x6B4C, 0x20, 0x6253, 0x5F00] = Some [0x5168, 0x6C11, 0x4B, 0x6B4C]"
  "extractAppName [0x6296, 0x97F3, 0x20, 0x6253, 0x5F00] = Some [0x6296, 0x97F3]"
  "extractAppName [0x6253, 0x5F00] = None"
  by (simp_all add: extractAppName_def APP_NAMES_def)

section \<open>Slot redaction and the placeholder (C9)\<close>

text \<open>The example of the specification: the input is U+64AD U+653E ("play") followed by
  the five characters U+5C71 U+6942 U+6811 U+4E4B U+604B in the angle quotes U+300A and
  U+300B. Its skeleton is the canonical action alone.\<close>

lemma normalizeIntent_play_quoted:
  "normalizeIntent_update
     [0x64AD, 0x653E, 0x300A, 0x5C71, 0x6942, 0x6811, 0x4E4B, 0x604B, 0x300B] = [0x64AD, 0x653E]"
  by (simp add: redact_defs normalize_defs)

text \<open>
  C9. The claim ends: the redaction placeholder never contributes a token to any
  skeleton. The code skips a word only when it equals \<open><QUERY>\<close>. For the quoted span
  alone, the first pattern leaves \<open><QUERY>\<close>, the second pattern then matches the letters
  \<open>QUERY\<close> inside it and leaves \<open><<QUERY>>\<close>, which is not skipped: the skeleton of the
  quoted span is the token \<open><<QUERY>>\<close>, in both copies of \<open>normalizeIntent\<close>.
\<close>

theorem normalizeIntent_placeholder_token:
  "normalizeIntent_update [0x300A, 0x5C71, 0x6942, 0x6811, 0x4E4B, 0x604B, 0x300B]
     = [0x3C, 0x3C, 0x51, 0x55, 0x45, 0x52, 0x59, 0x3E, 0x3E]
   \<and> normalizeIntent_csv [0x300A, 0x5C71, 0x6942, 0x6811, 0x4E4B, 0x604B, 0x300B]
     = [0x3C, 0x3C, 0x51, 0x55, 0x45, 0x52, 0x59, 0x3E, 0x3E]"
  by (simp add: redact_defs normalize_defs)

section \<open>Verb canonicalisation (C8)\<close>



section \<open>Hierarchy labels in \<open>extractIntent\<close> (C5)\<close>

text \<open>
  C5 as stated fails: the label U+4E2A U+4EBA U+4E2D U+5FC3 ("personal centre"), supplied
  as \<open>level1\<close> with nothing else, is a run of four ideographs; the second slot pattern
  redacts it and the skeleton is empty. The label U+67E5 U+627E ("look up") is a key of
  the verb table and comes out as U+641C U+7D22 ("search"), not verbatim.
\<close>

theorem extractIntent_label_not_verbatim:
  "extractIntent (Some [0x4E2A, 0x4EBA, 0x4E2D, 0x5FC3]) None None [] = []
   \<and> extractIntent (Some [0x67E5, 0x627E]) None None [] = [0x641C, 0x7D22]"
  by (simp add: extractIntent_def push_if_truthy_def redact_defs normalize_defs)

text \<open>
  C5, amended. The supplied labels are put, in hierarchy order, in front of the
  normalised free-text queries in the combined text, and the combined text as a whole is
  given to \<open>normalizeIntent\<close>: the labels go through slot redaction, verb
  canonicalisation and the filter on residual tokens like the rest.
\<close>

theorem extractIntent_normalizes_labels:
  "extractIntent level1 functionPoint subFunction queries =
     normalizeIntent_csv
       (join_sp (supplied_labels [level1, functionPoint, subFunction]
                 @ filter (\<lambda>n. n \<noteq> []) (map normalizeIntent_csv queries)))"
  by (cases level1; cases functionPoint; cases subFunction)
     (simp_all add: extractIntent_def push_if_truthy_def supplied_labels_def foldl_push_query)

text \<open>With the labels U+9996 U+9875 ("home page") and U+67E5 U+627E ("look up") and the
  query U+8FDB U+5165 ("enter"): the first label is kept as a residual token, the second
  is canonicalised to "search", and the query gives "open".\<close>

theorem extractIntent_normalizes_labels_witness:
  "extractIntent (Some [0x9996, 0x9875]) (Some [0x67E5, 0x627E]) None [[0x8FDB, 0x5165]]
     = [0x9996, 0x9875, 0x20, 0x641C, 0x7D22, 0x20, 0x6253, 0x5F00]"
  using extractIntent_normalizes_labels
    [of "Some [0x9996, 0x9875]" "Some [0x67E5, 0x627E]" None "[[0x8FDB, 0x5165]]"]
  by (simp add: supplied_labels_def redact_defs normalize_defs)

section \<open>Classification (C1)\<close>

text \<open>
  C1. Every record that the loop of the handler scores, and every record of a response,
  has \<open>is_duplicate\<close> true exactly when its intent similarity is at least 0.7 and its
  lexical (text) similarity is at least 0.3: the flag is \<open>Classify\<close> of the two scores,
  a function of the score pair and the two fixed thresholds only.
\<close>

theorem classification_by_thresholds:
  "(\<forall>r \<in> set (scoreRecords q records).
      is_duplicate r = Classify (intent_similarity r) (text_similarity r))
   \<and> (search_similar query fetch = Inr resp \<longrightarrow>
        (\<forall>r \<in> set (results resp).
           is_duplicate r = Classify (intent_similarity r) (text_similarity r)))"
  using scoreRecords_Classify search_similar_results_subset by blast

text \<open>In the library of six records the last record scores (1, 1) and is a duplicate;
  the first scores (0, 0) and is not.\<close>

theorem classification_by_thresholds_witness:
  "scoreRecords query_open library_six \<noteq> []
   \<and> is_duplicate (last (scoreRecords query_open library_six))
   \<and> Classify (intent_similarity (last (scoreRecords query_open library_six)))
               (text_similarity (last (scoreRecords query_open library_six)))
   \<and> \<not> is_duplicate (hd (scoreRecords query_open library_six))
   \<and> \<not> Classify (intent_similarity (hd (scoreRecords query_open library_six)))
                 (text_similarity (hd (scoreRecords query_open library_six)))"
proof -
  let ?S = "scoreRecords query_open library_six"
  have ne: "?S \<noteq> []" using six_last by simp
  then have "last ?S \<in> set ?S" "hd ?S \<in> set ?S" by simp_all
  then have "is_duplicate (last ?S) = Classify (intent_similarity (last ?S)) (text_similarity (last ?S))"
    "is_duplicate (hd ?S) = Classify (intent_similarity (hd ?S)) (text_similarity (hd ?S))"
    using classification_by_thresholds [of query_open library_six] by blast+
  then show ?thesis using six_last by simp
qed

section \<open>Ranking (C2)\<close>




section \<open>The empty library (C3)\<close>

text \<open>
  C3 as stated fails. With an empty record set the handler returns before it scores
  anything: the body has the empty result list and a message, and neither
  \<open>hasDuplicate\<close> nor \<open>totalRecords\<close>. No response with \<open>hasDuplicate = false\<close> and
  \<open>totalRecords = 0\<close> is returned.
\<close>

theorem empty_library_not_aggregated:
  "\<not> (\<exists>resp. search_similar (JString query_open) (Fetch_data (Some [])) = Inr resp
         \<and> results resp = [] \<and> hasDuplicate resp = Some False \<and> totalRecords resp = Some 0)"
  by (simp add: search_similar_def query_open_def empty_library_def)

text \<open>
  C3, amended. For every query string that is not empty, an empty record set (or no
  record set at all) gives the empty result list together with the message that the
  library is empty; \<open>hasDuplicate\<close>, \<open>totalRecords\<close> and \<open>queryIntent\<close> are absent from the
  response.
\<close>

theorem empty_library_response:
  assumes "q \<noteq> []"
  shows "search_similar (JString q) (Fetch_data (Some [])) =
           Inr \<lparr> results = [], message = Some EMPTY_LIBRARY_MESSAGE, totalRecords = None,
                 queryIntent = None, hasDuplicate = None \<rparr>
         \<and> search_similar (JString q) (Fetch_data None) =
           Inr \<lparr> results = [], message = Some EMPTY_LIBRARY_MESSAGE, totalRecords = None,
                 queryIntent = None, hasDuplicate = None \<rparr>"
  using assms by (simp add: search_similar_def empty_library_def)

theorem empty_library_response_witness:
  "query_open \<noteq> []
   \<and> search_similar (JString query_open) (Fetch_data (Some [])) =
       Inr \<lparr> results = [], message = Some EMPTY_LIBRARY_MESSAGE, totalRecords = None,
             queryIntent = None, hasDuplicate = None \<rparr>"
proof -
  have ne: "query_open \<noteq> []" by (simp add: query_open_def)
  from empty_library_response [OF ne] ne show ?thesis by blast
qed

section \<open>The only error of the entry point (C6)\<close>

text \<open>
  C6 as stated fails. The empty string is a query string that is present, and the guard
  \<open>!query\<close> rejects it like a missing one.
\<close>

theorem empty_query_string_rejected:
  "search_similar (JString []) (Fetch_data (Some library_six)) = Inl Query_is_required"
  by (simp add: search_similar_def)

text \<open>
  C6, amended. Given the rows of the table, the handler fails exactly when the query is
  not a string that is not empty (it is missing or \<open>undefined\<close>, \<open>null\<close>, not a string, or
  the empty string), and the failure is "Query is required"; for every query string that
  is not empty and every record set it returns a response.
\<close>

theorem query_error_iff_not_nonempty_string:
  "(search_similar query (Fetch_data rows) = Inl e \<longleftrightarrow>
      e = Query_is_required \<and> \<not> (\<exists>s. query = JString s \<and> s \<noteq> []))
   \<and> ((\<exists>s. query = JString s \<and> s \<noteq> []) \<longrightarrow>
        (\<exists>resp. search_similar query (Fetch_data rows) = Inr resp))"
  by (auto simp: search_similar_def Let_def split: jsvalue.splits option.splits)

theorem query_error_iff_not_nonempty_string_witness:
  "search_similar JUndefined (Fetch_data (Some library_six)) = Inl Query_is_required
   \<and> search_similar JNull (Fetch_data (Some library_six)) = Inl Query_is_required
   \<and> search_similar (JNumber 5) (Fetch_data (Some library_six)) = Inl Query_is_required
   \<and> (\<exists>resp. search_similar (JString query_open) (Fetch_data (Some library_six)) = Inr resp)"
proof -
  have "\<exists>s. JString query_open = JString s \<and> s \<noteq> []" by (simp add: query_open_def)
  then have "\<exists>resp. search_similar (JString query_open) (Fetch_data (Some library_six)) = Inr resp"
    using query_error_iff_not_nonempty_string [of "JString query_open" "Some library_six"] by blast
  moreover have "search_similar JUndefined (Fetch_data (Some library_six)) = Inl Query_is_required"
    using query_error_iff_not_nonempty_string [of JUndefined "Some library_six" Query_is_required]
    by simp
  moreover have "search_similar JNull (Fetch_data (Some library_six)) = Inl Query_is_required"
    using query_error_iff_not_nonempty_string [of JNull "Some library_six" Query_is_required]
    by simp
  moreover have "search_similar (JNumber 5) (Fetch_data (Some library_six)) = Inl Query_is_required"
    using query_error_iff_not_nonempty_string [of "JNumber 5" "Some library_six" Query_is_required]
    by simp
  ultimately show ?thesis by blast
qed

section \<open>Entity dampening (C4)\<close>



section \<open>Bounds of the scores in exact arithmetic (C7)\<close>

text \<open>
  C7 speaks of the double-precision results of the program: that they stay inside [0, 1]
  and are never NaN. The numbers of this theory are exact reals, so the theorem below is
  about the functions the program approximates, not about its rounded results: in
  doubles the quotient of the cosine can round to a value just above 1 when the two
  vectors are equal. In exact arithmetic, every intent similarity and every lexical
  similarity that the handler computes lies between 0 and 1. All TF-IDF weights are
  non-negative: a term frequency is in (0, 1], the document count of a word of the index
  is at least 1 and at most the number of documents, so the argument of the logarithm is
  at least 1. The cosine is at most 1, is at least 0 on vectors without negative weights,
  and is 0 when either norm is 0. No quotient of the computation is 0/0: the two squared
  norms are never negative, and where the guard lets the division happen its divisor is
  not 0.
\<close>

theorem similarity_scores_bounded:
  "(\<forall>r \<in> set (scoreRecords q records).
      0 \<le> intent_similarity r \<and> intent_similarity r \<le> 1
      \<and> 0 \<le> text_similarity r \<and> text_similarity r \<le> 1)
   \<and> 0 \<le> computeIntentSimilarity a b \<and> computeIntentSimilarity a b \<le> 1
   \<and> (\<forall>e \<in> set (computeTFIDF (computeTermFrequency words) (computeIDF docs)). 0 \<le> snd e)
   \<and> (\<forall>e \<in> set (computeIDF docs).
         0 < doc_freq docs (fst e) \<and> doc_freq docs (fst e) \<le> length docs \<and> 0 \<le> snd e)
   \<and> (\<forall>e \<in> set (computeTermFrequency words). 0 < snd e \<and> snd e \<le> 1)
   \<and> cosineSimilarity vec1 vec2 \<le> 1
   \<and> ((\<forall>e \<in> set vec1. 0 \<le> snd e) \<and> (\<forall>e \<in> set vec2. 0 \<le> snd e)
         \<longrightarrow> 0 \<le> cosineSimilarity vec1 vec2)
   \<and> (case cosine_sums vec1 vec2 of
         (dotProduct, norm1, norm2) \<Rightarrow>
           0 \<le> norm1 \<and> 0 \<le> norm2
           \<and> (norm1 = 0 \<or> norm2 = 0 \<longrightarrow> cosineSimilarity vec1 vec2 = 0)
           \<and> (norm1 \<noteq> 0 \<and> norm2 \<noteq> 0 \<longrightarrow> sqrt norm1 * sqrt norm2 \<noteq> 0))"
proof -
  have 1: "\<forall>r \<in> set (scoreRecords q records).
      0 \<le> intent_similarity r \<and> intent_similarity r \<le> 1
      \<and> 0 \<le> text_similarity r \<and> text_similarity r \<le> 1"
    using scoreRecords_bounds by blast
  have 2: "0 \<le> computeIntentSimilarity a b \<and> computeIntentSimilarity a b \<le> 1"
    by (rule computeIntentSimilarity_bounds)
  have 3: "\<forall>e \<in> set (computeTFIDF (computeTermFrequency words) (computeIDF docs)). 0 \<le> snd e"
    using computeTFIDF_nonneg by blast
  have 4: "\<forall>e \<in> set (computeIDF docs).
         0 < doc_freq docs (fst e) \<and> doc_freq docs (fst e) \<le> length docs \<and> 0 \<le> snd e"
  proof
    fix e assume "e \<in> set (computeIDF docs)"
    then have "(fst e, snd e) \<in> set (computeIDF docs)" by simp
    from computeIDF_entry [OF this]
    show "0 < doc_freq docs (fst e) \<and> doc_freq docs (fst e) \<le> length docs \<and> 0 \<le> snd e"
      by blast
  qed
  have 5: "\<forall>e \<in> set (computeTermFrequency words). 0 < snd e \<and> snd e \<le> 1"
  proof
    fix e assume "e \<in> set (computeTermFrequency words)"
    then have "(fst e, snd e) \<in> set (computeTermFrequency words)" by simp
    from computeTermFrequency_entry [OF this] show "0 < snd e \<and> snd e \<le> 1" by blast
  qed
  have 6: "cosineSimilarity vec1 vec2 \<le> 1" by (rule cosineSimilarity_le_1)
  have 7: "(\<forall>e \<in> set vec1. 0 \<le> snd e) \<and> (\<forall>e \<in> set vec2. 0 \<le> snd e)
         \<longrightarrow> 0 \<le> cosineSimilarity vec1 vec2"
    using cosineSimilarity_nonneg [of vec1 vec2] by blast
  have 8: "case cosine_sums vec1 vec2 of
         (dotProduct, norm1, norm2) \<Rightarrow>
           0 \<le> norm1 \<and> 0 \<le> norm2
           \<and> (norm1 = 0 \<or> norm2 = 0 \<longrightarrow> cosineSimilarity vec1 vec2 = 0)
           \<and> (norm1 \<noteq> 0 \<and> norm2 \<noteq> 0 \<longrightarrow> sqrt norm1 * sqrt norm2 \<noteq> 0)"
  proof -
    obtain d n1 n2 where s: "cosine_sums vec1 vec2 = (d, n1, n2)"
      by (cases "cosine_sums vec1 vec2")
    have "n1 = 0 \<or> n2 = 0 \<longrightarrow> cosineSimilarity vec1 vec2 = 0"
      by (auto simp: cosineSimilarity_def s)
    then show ?thesis using cosine_sums_norms [OF s] by (simp add: s)
  qed
  from 1 2 3 4 5 6 7 8 show ?thesis by blast
qed

text \<open>The second record of the library of three has the lexical similarity
  \<open>cycle_mid_score\<close>, which is neither 0 nor 1.\<close>

theorem similarity_scores_bounded_witness:
  "text_similarity (scoreRecords query_open library_cycle ! 1) = cycle_mid_score
   \<and> intent_similarity (scoreRecords query_open library_cycle ! 1) = 1 / 11
   \<and> 0 \<le> cycle_mid_score \<and> cycle_mid_score \<le> 1"
proof -
  let ?S = "scoreRecords query_open library_cycle"
  let ?f = "\<lambda>r. (record_id r, intent_similarity r, text_similarity r, is_duplicate r)"
  have len: "length ?S = 3" by (simp add: library_cycle_def)
  then have "?f (?S ! 1) = map ?f ?S ! 1" by simp
  then have v: "text_similarity (?S ! 1) = cycle_mid_score" "intent_similarity (?S ! 1) = 1 / 11"
    unfolding scored_cycle by simp_all
  have "?S ! 1 \<in> set ?S" using len by simp
  then have "0 \<le> text_similarity (?S ! 1) \<and> text_similarity (?S ! 1) \<le> 1"
    using similarity_scores_bounded [of query_open library_cycle] by blast
  then show ?thesis using v by simp
qed

section \<open>The aggregate over the truncated list (C10)\<close>



end
